theory Spec2Isabelle
  imports Complex_Main "HOL-Library.Multiset" "HOL-Library.Char_ord" "HOL-Library.List_Lexorder"
begin

section \<open>Bounding box model\<close>

text \<open>
  The two Lambda variants (\<^verbatim>\<open>Lambda_PreTrained.py\<close> and
  \<^verbatim>\<open>Lambda_PreTrained_and_CustomLabels.py\<close>) share the classes \<^verbatim>\<open>Interval\<close> and
  \<^verbatim>\<open>BoundingBox\<close> and the functions \<^verbatim>\<open>make_bounding_box\<close>,
  \<^verbatim>\<open>if_intervals_intersect\<close> and \<^verbatim>\<open>if_boxes_intersect\<close> word for word.
  Coordinates are Python floats; they are modelled as reals, on which the comparisons of
  the source agree with those of finite floats (a NaN coordinate is outside the model).
\<close>

record Interval =
  min_val :: real
  max_val :: real

record BoundingBox =
  x_interval :: Interval
  y_interval :: Interval

text \<open>The provider's bounding box record: the four keys \<^verbatim>\<open>make_bounding_box\<close> reads.\<close>

record box_data =
  Width :: real
  Height :: real
  Left :: real
  Top :: real

definition make_bounding_box :: "box_data \<Rightarrow> BoundingBox" where
  "make_bounding_box bd =
     (let width = Width bd; height = Height bd; left = Left bd; top = Top bd;
          right = left + width; bottom = top + height
      in \<lparr> x_interval = \<lparr> min_val = min left right, max_val = max left right \<rparr>,
           y_interval = \<lparr> min_val = min top bottom, max_val = max top bottom \<rparr> \<rparr>)"

text \<open>
  \<^verbatim>\<open>if lhs.min > rhs.min: lhs, rhs = rhs, lhs\<close> followed by
  \<^verbatim>\<open>return rhs.min < lhs.max\<close>.
\<close>

definition if_intervals_intersect :: "Interval \<Rightarrow> Interval \<Rightarrow> bool" where
  "if_intervals_intersect lhs rhs =
     (let (lhs', rhs') = (if min_val lhs > min_val rhs then (rhs, lhs) else (lhs, rhs))
      in min_val rhs' < max_val lhs')"

definition if_boxes_intersect :: "BoundingBox \<Rightarrow> BoundingBox \<Rightarrow> bool" where
  "if_boxes_intersect lhs_box rhs_box =
     (let if_x_intersect = if_intervals_intersect (x_interval lhs_box) (x_interval rhs_box);
          if_y_intersect = if_intervals_intersect (y_interval lhs_box) (y_interval rhs_box)
      in if_x_intersect \<and> if_y_intersect)"

text \<open>A box given by its corners \<open>(x0, y0)\<close> and \<open>(x1, y1)\<close>, for concrete examples.\<close>

definition corners :: "real \<Rightarrow> real \<Rightarrow> real \<Rightarrow> real \<Rightarrow> BoundingBox" where
  "corners x0 y0 x1 y1 =
     \<lparr> x_interval = \<lparr> min_val = x0, max_val = x1 \<rparr>, y_interval = \<lparr> min_val = y0, max_val = y1 \<rparr> \<rparr>"


section \<open>Python values and operations the code relies on\<close>

text \<open>
  Exceptions are values: a function that can raise returns \<open>py_error + 'a\<close>, with
  \<open>Inl\<close> the exception. \<open>NotModelled\<close> marks the one place where the model stops short
  of Python: a format string with a named or numbered replacement field.
\<close>

datatype py_error = IndexError | AttributeError | ValueError | NotModelled

text \<open>\<^verbatim>\<open>xs[i]\<close> and \<^verbatim>\<open>del xs[i]\<close>: a negative index counts from the end.\<close>

definition py_getitem :: "'a list \<Rightarrow> int \<Rightarrow> py_error + 'a" where
  "py_getitem xs i =
     (if 0 \<le> i \<and> i < int (length xs) then Inr (xs ! nat i)
      else if i < 0 \<and> - int (length xs) \<le> i then Inr (xs ! nat (i + int (length xs)))
      else Inl IndexError)"

definition py_delitem :: "'a list \<Rightarrow> int \<Rightarrow> py_error + 'a list" where
  "py_delitem xs i =
     (if 0 \<le> i \<and> i < int (length xs) then Inr (take (nat i) xs @ drop (Suc (nat i)) xs)
      else if i < 0 \<and> - int (length xs) \<le> i
      then Inr (take (nat (i + int (length xs))) xs @ drop (Suc (nat (i + int (length xs)))) xs)
      else Inl IndexError)"

text \<open>\<^verbatim>\<open>str(n)\<close> for an integer, in decimal.\<close>

definition digit_char :: "nat \<Rightarrow> char" where
  "digit_char d = ''0123456789'' ! d"

function str_nat :: "nat \<Rightarrow> string" where
  "str_nat n = (if n < 10 then [digit_char n] else str_nat (n div 10) @ [digit_char (n mod 10)])"
  by pat_completeness auto
termination
  by (relation "measure id") auto

declare str_nat.simps [simp del]

definition py_str :: "int \<Rightarrow> string" where
  "py_str i = (if i < 0 then CHR ''-'' # str_nat (nat (- i)) else str_nat (nat i))"

text \<open>\<^verbatim>\<open>sep.join(xs)\<close>.\<close>

fun join :: "string \<Rightarrow> string list \<Rightarrow> string" where
  "join sep [] = []"
| "join sep [x] = x"
| "join sep (x # y # ys) = x @ sep @ join sep (y # ys)"

text \<open>
  \<^verbatim>\<open>template.format(*args)\<close> with automatically numbered fields: \<^verbatim>\<open>{}\<close> takes the
  next argument (\<^verbatim>\<open>IndexError\<close> when none is left), \<^verbatim>\<open>{{\<close> and \<^verbatim>\<open>}}\<close> are escaped
  braces, a lone brace is a \<^verbatim>\<open>ValueError\<close>. The arguments are already strings
  (\<^verbatim>\<open>str\<close> of the value). A field with a name, an index, a conversion or a format
  spec is not modelled.
\<close>

fun py_format :: "string \<Rightarrow> string list \<Rightarrow> py_error + string" where
  "py_format [] args = Inr []"
| "py_format [c] args = (if c = CHR ''{'' \<or> c = CHR ''}'' then Inl ValueError else Inr [c])"
| "py_format (c # d # cs) args =
     (if c = CHR ''{'' then
        (if d = CHR ''{'' then map_sum id ((#) c) (py_format cs args)
         else if d = CHR ''}'' then
           (case args of
              [] \<Rightarrow> Inl IndexError
            | a # args' \<Rightarrow> map_sum id ((@) a) (py_format cs args'))
         else Inl NotModelled)
      else if c = CHR ''}'' then
        (if d = CHR ''}'' then map_sum id ((#) c) (py_format cs args) else Inl ValueError)
      else map_sum id ((#) c) (py_format (d # cs) args))"

text \<open>
  \<^verbatim>\<open>s.lower()\<close> on ASCII text: the letters \<open>A\<close> to \<open>Z\<close> go to \<open>a\<close> to \<open>z\<close>, every
  other character stays (label names outside ASCII are outside the model).
\<close>

definition lower_char :: "char \<Rightarrow> char" where
  "lower_char c =
     (case map_of (zip ''ABCDEFGHIJKLMNOPQRSTUVWXYZ'' ''abcdefghijklmnopqrstuvwxyz'') c of
        None \<Rightarrow> c
      | Some l \<Rightarrow> l)"

definition lower :: "string \<Rightarrow> string" where
  "lower s = map lower_char s"

text \<open>
  \<^verbatim>\<open>d[k].append(v)\<close> on a \<^verbatim>\<open>defaultdict(list)\<close>, kept as an association list in
  insertion order (the order \<^verbatim>\<open>d.items()\<close> follows): a new key goes to the end.
\<close>

fun dd_append :: "'k \<Rightarrow> 'v \<Rightarrow> ('k \<times> 'v list) list \<Rightarrow> ('k \<times> 'v list) list" where
  "dd_append k v [] = [(k, [v])]"
| "dd_append k v ((k', vs) # d) =
     (if k = k' then (k', vs @ [v]) # d else (k', vs) # dd_append k v d)"

section \<open>The single-category variant: \<^verbatim>\<open>lambda_function.py\<close>\<close>

text \<open>
  \<^verbatim>\<open>getPersonsAndVests\<close> builds persons and vests as dictionaries with the keys
  \<^verbatim>\<open>BoundingBox\<close>, \<^verbatim>\<open>BoundingBoxCoordinates\<close> and \<^verbatim>\<open>Confidence\<close>; the coordinates
  are the four corners \<open>(x1, y1)\<close> \<dots> \<open>(x4, y4)\<close> that \<^verbatim>\<open>getBoundingBoxCoordinates\<close>
  returns. \<^verbatim>\<open>matchPersonsAndVests\<close> reads \<open>x1, x2, y1, y4\<close> only.
\<close>

record coordinates =
  x1 :: real
  y1 :: real
  x2 :: real
  y2 :: real
  x3 :: real
  y3 :: real
  x4 :: real
  y4 :: real

record detection =
  BoundingBox_d :: box_data
  BoundingBoxCoordinates :: coordinates
  Confidence_d :: real

record pair =
  Person :: detection
  Vest :: detection

record match_state =
  persons :: "detection list"
  vests :: "detection list"
  personsWithvests :: "pair list"
  matched :: int

definition overlaps :: "detection \<Rightarrow> detection \<Rightarrow> bool" where
  "overlaps vest person =
     (\<not> (x2 (BoundingBoxCoordinates vest) < x1 (BoundingBoxCoordinates person)
        \<or> x1 (BoundingBoxCoordinates vest) > x2 (BoundingBoxCoordinates person)
        \<or> y4 (BoundingBoxCoordinates vest) < y1 (BoundingBoxCoordinates person)
        \<or> y1 (BoundingBoxCoordinates vest) > y4 (BoundingBoxCoordinates person)))"

text \<open>
  The inner \<^verbatim>\<open>while\<close> of \<^verbatim>\<open>matchPersonsAndVests\<close>: it scans the persons from index \<open>p\<close>;
  at the first one the vest overlaps it records the pair, deletes the person and the vest
  from the working lists, counts the match and breaks.
\<close>

function inner_loop :: "match_state \<Rightarrow> detection \<Rightarrow> int \<Rightarrow> int \<Rightarrow> int \<Rightarrow> py_error + match_state" where
  "inner_loop st vest h totalPersons p =
     (if p < totalPersons then
        (case py_getitem (persons st) p of
           Inl e \<Rightarrow> Inl e
         | Inr person \<Rightarrow>
             if overlaps vest person then
               (case py_delitem (persons st) p of
                  Inl e \<Rightarrow> Inl e
                | Inr persons' \<Rightarrow>
                    (case py_delitem (vests st) (h - matched st) of
                       Inl e \<Rightarrow> Inl e
                     | Inr vests' \<Rightarrow>
                         Inr (st\<lparr> personsWithvests :=
                                    personsWithvests st @ [\<lparr> Person = person, Vest = vest \<rparr>],
                                  persons := persons', vests := vests',
                                  matched := matched st + 1 \<rparr>)))
             else inner_loop st vest h totalPersons (p + 1))
      else Inr st)"
  by pat_completeness auto
termination
  by (relation "measure (\<lambda>(st, vest, h, totalPersons, p). nat (totalPersons - p))") auto

text \<open>
  The outer \<^verbatim>\<open>while\<close>: the vest looked at in round \<open>h\<close> is \<^verbatim>\<open>vests[h - matched]\<close>.
\<close>

function outer_loop :: "match_state \<Rightarrow> int \<Rightarrow> int \<Rightarrow> py_error + match_state" where
  "outer_loop st totalvests h =
     (if h < totalvests then
        (case py_getitem (vests st) (h - matched st) of
           Inl e \<Rightarrow> Inl e
         | Inr vest \<Rightarrow>
             (case inner_loop st vest h (int (length (persons st))) 0 of
                Inl e \<Rightarrow> Inl e
              | Inr st' \<Rightarrow> outer_loop st' totalvests (h + 1)))
      else Inr st)"
  by pat_completeness auto
termination
  by (relation "measure (\<lambda>(st, totalvests, h). nat (totalvests - h))") auto

declare inner_loop.simps [simp del] outer_loop.simps [simp del]

text \<open>
  The two \<^verbatim>\<open>for\<close> loops at the start copy the argument lists element by element; the
  function returns \<^verbatim>\<open>(personsWithvests, persons, vests)\<close>.
\<close>

definition matchPersonsAndVests ::
  "detection list \<Rightarrow> detection list \<Rightarrow> py_error + (pair list \<times> detection list \<times> detection list)" where
  "matchPersonsAndVests personsList vestsList =
     (let persons0 = foldl (\<lambda>acc person. acc @ [person]) [] personsList;
          vests0 = foldl (\<lambda>acc vest. acc @ [vest]) [] vestsList;
          st0 = \<lparr> persons = persons0, vests = vests0, personsWithvests = [], matched = 0 \<rparr>
      in case outer_loop st0 (int (length vests0)) 0 of
           Inl e \<Rightarrow> Inl e
         | Inr st \<Rightarrow> Inr (personsWithvests st, persons st, vests st))"


text \<open>
  The policy of the claim in its own words, to compare the loops with: the vests are taken
  in list order; each is paired with the first person, in list order, among those still
  unmatched that it overlaps, and both leave the matching; a vest overlapping none of them
  stays unmatched.
\<close>

fun first_overlap :: "detection \<Rightarrow> detection list \<Rightarrow> nat option" where
  "first_overlap v [] = None"
| "first_overlap v (p # ps) = (if overlaps v p then Some 0 else map_option Suc (first_overlap v ps))"

fun greedy_spec :: "detection list \<Rightarrow> detection list \<Rightarrow> pair list \<times> detection list \<times> detection list" where
  "greedy_spec ps [] = ([], ps, [])"
| "greedy_spec ps (v # vs) =
     (case first_overlap v ps of
        None \<Rightarrow> (case greedy_spec ps vs of (m, ps', vs') \<Rightarrow> (m, ps', v # vs'))
      | Some i \<Rightarrow>
          (case greedy_spec (take i ps @ drop (Suc i) ps) vs of
             (m, ps', vs') \<Rightarrow> (\<lparr> Person = ps ! i, Vest = v \<rparr> # m, ps', vs')))"


section \<open>Persons, the matcher and the statistics of the two multi-label variants\<close>

text \<open>
  Class \<^verbatim>\<open>Person\<close>. The class of \<^verbatim>\<open>Lambda_PreTrained.py\<close> has the further attribute
  \<^verbatim>\<open>confidence\<close>; it is the record extension \<open>Person_PreTrained\<close>, and everything
  below that works on both classes is stated for \<open>'a Person_scheme\<close>.
  \<^verbatim>\<open>equipment\<close> is a Python set of group names: a HOL set, on which
  \<^verbatim>\<open>len(s) == 0\<close> is \<open>s = {}\<close>.
\<close>

record Person =
  equipment :: "string set"
  ind :: "int option"
  box :: "BoundingBox option"

record Person_PreTrained = Person +
  confidence :: "real option"

text \<open>
  Persons are objects that the matcher and \<^verbatim>\<open>Stats\<close> mutate in place through the
  references held in the population list. The store maps an object's address to its
  current attributes; a population is a list of addresses, in which the same object may
  stand more than once.
\<close>

type_synonym 'a store = "nat \<Rightarrow> 'a Person_scheme"

text \<open>
  The matching loops of \<^verbatim>\<open>build_stats\<close> in \<^verbatim>\<open>Lambda_PreTrained_and_CustomLabels.py\<close>
  (the logging apart): for every group and every box of the group, every person whose box
  intersects it gets the group name added to its equipment.
  \<^verbatim>\<open>if_boxes_intersect(person.box, box)\<close> raises \<^verbatim>\<open>AttributeError\<close> on a person
  whose \<^verbatim>\<open>box\<close> is still \<^verbatim>\<open>None\<close>.
\<close>

fun match_box_population :: "'a store \<Rightarrow> string \<Rightarrow> BoundingBox \<Rightarrow> nat list \<Rightarrow> py_error + 'a store" where
  "match_box_population \<sigma> group_name b [] = Inr \<sigma>"
| "match_box_population \<sigma> group_name b (person # population) =
     (case box (\<sigma> person) of
        None \<Rightarrow> Inl AttributeError
      | Some person_box \<Rightarrow>
          if if_boxes_intersect person_box b
          then match_box_population
                 (\<sigma>(person := (\<sigma> person)\<lparr> equipment := insert group_name (equipment (\<sigma> person)) \<rparr>))
                 group_name b population
          else match_box_population \<sigma> group_name b population)"

fun match_group_boxes :: "'a store \<Rightarrow> string \<Rightarrow> BoundingBox list \<Rightarrow> nat list \<Rightarrow> py_error + 'a store" where
  "match_group_boxes \<sigma> group_name [] population = Inr \<sigma>"
| "match_group_boxes \<sigma> group_name (b # group_boxes) population =
     (case match_box_population \<sigma> group_name b population of
        Inl e \<Rightarrow> Inl e
      | Inr \<sigma>' \<Rightarrow> match_group_boxes \<sigma>' group_name group_boxes population)"

fun build_stats_matching ::
  "'a store \<Rightarrow> nat list \<Rightarrow> (string \<times> BoundingBox list) list \<Rightarrow> py_error + 'a store" where
  "build_stats_matching \<sigma> population [] = Inr \<sigma>"
| "build_stats_matching \<sigma> population ((group_name, group_boxes) # equipment_boxes) =
     (case match_group_boxes \<sigma> group_name group_boxes population of
        Inl e \<Rightarrow> Inl e
      | Inr \<sigma>' \<Rightarrow> build_stats_matching \<sigma>' population equipment_boxes)"

text \<open>
  The matching loops of \<^verbatim>\<open>build_stats\<close> in \<^verbatim>\<open>Lambda_PreTrained.py\<close>: the same test,
  with the persons in the outermost loop.
\<close>

fun match_person_boxes :: "'a store \<Rightarrow> nat \<Rightarrow> string \<Rightarrow> BoundingBox list \<Rightarrow> py_error + 'a store" where
  "match_person_boxes \<sigma> person group_name [] = Inr \<sigma>"
| "match_person_boxes \<sigma> person group_name (b # boxes) =
     (case box (\<sigma> person) of
        None \<Rightarrow> Inl AttributeError
      | Some person_box \<Rightarrow>
          if if_boxes_intersect person_box b
          then match_person_boxes
                 (\<sigma>(person := (\<sigma> person)\<lparr> equipment := insert group_name (equipment (\<sigma> person)) \<rparr>))
                 person group_name boxes
          else match_person_boxes \<sigma> person group_name boxes)"

fun match_person_groups ::
  "'a store \<Rightarrow> nat \<Rightarrow> (string \<times> BoundingBox list) list \<Rightarrow> py_error + 'a store" where
  "match_person_groups \<sigma> person [] = Inr \<sigma>"
| "match_person_groups \<sigma> person ((group_name, boxes) # equipment_boxes) =
     (case match_person_boxes \<sigma> person group_name boxes of
        Inl e \<Rightarrow> Inl e
      | Inr \<sigma>' \<Rightarrow> match_person_groups \<sigma>' person equipment_boxes)"

fun build_stats_matching_PreTrained ::
  "'a store \<Rightarrow> nat list \<Rightarrow> (string \<times> BoundingBox list) list \<Rightarrow> py_error + 'a store" where
  "build_stats_matching_PreTrained \<sigma> [] equipment_boxes = Inr \<sigma>"
| "build_stats_matching_PreTrained \<sigma> (person # population) equipment_boxes =
     (case match_person_groups \<sigma> person equipment_boxes of
        Inl e \<Rightarrow> Inl e
      | Inr \<sigma>' \<Rightarrow> build_stats_matching_PreTrained \<sigma>' population equipment_boxes)"

subsection \<open>Configuration\<close>

text \<open>
  The class-level configuration the parser and the report read. \<^verbatim>\<open>TARGET_PPE_GROUP_KEYS\<close>
  is a dictionary, kept in declaration order. The functions below take the configuration
  in force as an argument (the handler of the custom-label variant deletes the groups whose
  custom module is off before anything else runs).
\<close>

record Config =
  PERSON_KEYS :: "string list"
  TARGET_PPE_GROUP_KEYS :: "(string \<times> string list) list"

definition Config_CustomLabels :: Config where
  "Config_CustomLabels =
     \<lparr> PERSON_KEYS = [''person'', ''human'', ''child''],
       TARGET_PPE_GROUP_KEYS =
         [(''helmet'', [''helmet'', ''hardhat'']),
          (''vest'', [''vest'', ''waistcoat'', ''safetyjacket'']),
          (''mask'', [''mask'', ''masks'']),
          (''boot'', [''boot'', ''shoe''])] \<rparr>"

definition Config_PreTrained :: Config where
  "Config_PreTrained =
     \<lparr> PERSON_KEYS = [''Person'', ''Human''],
       TARGET_PPE_GROUP_KEYS =
         [(''helmet'', [''Helmet'', ''Hardhat'']),
          (''boot'', [''Boot'', ''Shoe''])] \<rparr>"

subsection \<open>Class \<^verbatim>\<open>Stats\<close>\<close>

text \<open>
  \<^verbatim>\<open>equipment2person\<close> is a \<^verbatim>\<open>defaultdict(list)\<close> that is only ever read by key: a
  total function whose value at a key never written is the empty list.
  A Python set is iterated in the order of its hash table, which the program does not
  control; the functions that iterate a person's equipment take that order as the
  argument \<open>iter\<close>, the list in which a set is traversed.
\<close>

record Stats =
  population :: "nat list"
  equipment2person :: "string \<Rightarrow> nat list"

definition add_person ::
  "(string set \<Rightarrow> string list) \<Rightarrow> 'a store \<times> Stats \<Rightarrow> nat \<Rightarrow> 'a store \<times> Stats" where
  "add_person iter state person =
     (case state of (\<sigma>, self) \<Rightarrow>
        let \<sigma>' = \<sigma>(person := (\<sigma> person)\<lparr> ind := Some (int (length (population self))) \<rparr>);
            self' = self\<lparr> population := population self @ [person] \<rparr>
        in (\<sigma>', fold (\<lambda>key self. self\<lparr> equipment2person :=
                                  (equipment2person self)(key := equipment2person self key @ [person]) \<rparr>)
                      (iter (equipment (\<sigma>' person))) self'))"

definition Stats_init ::
  "(string set \<Rightarrow> string list) \<Rightarrow> 'a store \<Rightarrow> nat list \<Rightarrow> 'a store \<times> Stats" where
  "Stats_init iter \<sigma> population_arg =
     fold (\<lambda>person state. add_person iter state person) population_arg
       (\<sigma>, \<lparr> population = [], equipment2person = (\<lambda>key. []) \<rparr>)"

definition population_size :: "Stats \<Rightarrow> int" where
  "population_size self = int (length (population self))"

definition unequipped_size :: "'a store \<Rightarrow> Stats \<Rightarrow> int" where
  "unequipped_size \<sigma> self =
     sum_list (map (\<lambda>entry. 1) (filter (\<lambda>entry. equipment (\<sigma> entry) = {}) (population self)))"

definition equipped_size :: "'a store \<Rightarrow> Stats \<Rightarrow> int" where
  "equipped_size \<sigma> self = population_size self - unequipped_size \<sigma> self"

text \<open>
  \<^verbatim>\<open>prepare_message\<close>. The line of an equipped person is built by
  \<^verbatim>\<open>("Person {} wears: " + ", ".join(person.equipment) + ".\n").format(idx)\<close>: the names
  are joined in the set's iteration order, and the joined text is part of the format
  string.
\<close>

fun group_lines :: "Stats \<Rightarrow> string list \<Rightarrow> py_error + string" where
  "group_lines self [] = Inr []"
| "group_lines self (equipment_group # groups) =
     (case py_format ''Persons with {}: {}.\<newline>''
             [equipment_group, py_str (int (length (equipment2person self equipment_group)))] of
        Inl e \<Rightarrow> Inl e
      | Inr line \<Rightarrow> map_sum id ((@) line) (group_lines self groups))"

definition person_line :: "(string set \<Rightarrow> string list) \<Rightarrow> 'a store \<Rightarrow> int \<Rightarrow> nat \<Rightarrow> py_error + string" where
  "person_line iter \<sigma> idx person =
     (if equipment (\<sigma> person) \<noteq> {}
      then py_format (''Person {} wears: '' @ join '', '' (iter (equipment (\<sigma> person))) @ ''.\<newline>'')
             [py_str idx]
      else py_format ''Person {} is unequipped.\<newline>'' [py_str idx])"

fun person_lines ::
  "(string set \<Rightarrow> string list) \<Rightarrow> 'a store \<Rightarrow> int \<Rightarrow> nat list \<Rightarrow> py_error + string" where
  "person_lines iter \<sigma> idx [] = Inr []"
| "person_lines iter \<sigma> idx (person # rest) =
     (case person_line iter \<sigma> idx person of
        Inl e \<Rightarrow> Inl e
      | Inr line \<Rightarrow> map_sum id ((@) line) (person_lines iter \<sigma> (idx + 1) rest))"

definition message_from ::
  "string \<Rightarrow> Config \<Rightarrow> (string set \<Rightarrow> string list) \<Rightarrow> 'a store \<Rightarrow> Stats \<Rightarrow> py_error + string" where
  "message_from first_template cfg iter \<sigma> self =
     (case py_format first_template [py_str (population_size self)] of
        Inl e \<Rightarrow> Inl e
      | Inr found \<Rightarrow>
          (case py_format ''Without equipment: {}.\<newline>'' [py_str (unequipped_size \<sigma> self)] of
             Inl e \<Rightarrow> Inl e
           | Inr without \<Rightarrow>
               (case group_lines self (map fst (TARGET_PPE_GROUP_KEYS cfg)) of
                  Inl e \<Rightarrow> Inl e
                | Inr groups \<Rightarrow>
                    map_sum id ((@) (found @ without @ groups))
                      (person_lines iter \<sigma> 0 (population self)))))"

text \<open>
  \<^verbatim>\<open>Stats.prepare_message\<close> of \<^verbatim>\<open>Lambda_PreTrained_and_CustomLabels.py\<close>, and that of
  \<^verbatim>\<open>Lambda_PreTrained.py\<close>, which differs in the first line only.
\<close>

definition prepare_message ::
  "Config \<Rightarrow> (string set \<Rightarrow> string list) \<Rightarrow> 'a store \<Rightarrow> Stats \<Rightarrow> py_error + string" where
  "prepare_message = message_from ''Report: \<newline>Found {} persons.\<newline>''"

definition prepare_message_PreTrained ::
  "Config \<Rightarrow> (string set \<Rightarrow> string list) \<Rightarrow> 'a store \<Rightarrow> Stats \<Rightarrow> py_error + string" where
  "prepare_message_PreTrained = message_from ''Found {} persons.\<newline>''"

section \<open>Detection parser\<close>

text \<open>
  The provider's records. A key the code tests with \<^verbatim>\<open>in\<close> before reading it is an
  optional field; a key it reads without a test (\<^verbatim>\<open>Name\<close>, the four keys of a bounding
  box) is a field of the record.
\<close>

record entry =
  BoundingBox :: "box_data option"
  Confidence :: "real option"

record label =
  Name :: string
  Instances :: "entry list option"

definition new_Person :: Person where
  "new_Person = \<lparr> equipment = {}, ind = None, box = None \<rparr>"

definition new_Person_PreTrained :: Person_PreTrained where
  "new_Person_PreTrained = \<lparr> equipment = {}, ind = None, box = None, confidence = None \<rparr>"

subsection \<open>\<^verbatim>\<open>parse_general_objects\<close> of \<^verbatim>\<open>Lambda_PreTrained_and_CustomLabels.py\<close>\<close>

fun general_person_entries :: "entry list \<Rightarrow> Person list \<Rightarrow> Person list" where
  "general_person_entries [] population_list = population_list"
| "general_person_entries (entry # entries) population_list =
     (case BoundingBox entry of
        Some box_data \<Rightarrow>
          general_person_entries entries
            (population_list @ [new_Person\<lparr> box := Some (make_bounding_box box_data) \<rparr>])
      | None \<Rightarrow> general_person_entries entries population_list)"

fun general_box_entries ::
  "string \<Rightarrow> entry list \<Rightarrow> (string \<times> BoundingBox list) list \<Rightarrow> (string \<times> BoundingBox list) list" where
  "general_box_entries group_name [] equipment_boxes = equipment_boxes"
| "general_box_entries group_name (entry # entries) equipment_boxes =
     (case BoundingBox entry of
        Some box_data \<Rightarrow>
          general_box_entries group_name entries
            (dd_append group_name (make_bounding_box box_data) equipment_boxes)
      | None \<Rightarrow> general_box_entries group_name entries equipment_boxes)"

fun general_groups ::
  "label \<Rightarrow> entry list \<Rightarrow> (string \<times> string list) list \<Rightarrow>
     (string \<times> BoundingBox list) list \<Rightarrow> (string \<times> BoundingBox list) list" where
  "general_groups l entries [] equipment_boxes = equipment_boxes"
| "general_groups l entries ((group_name, names) # groups) equipment_boxes =
     (if lower (Name l) \<notin> set names
      then general_groups l entries groups equipment_boxes
      else general_groups l entries groups (general_box_entries group_name entries equipment_boxes))"

fun general_labels ::
  "Config \<Rightarrow> label list \<Rightarrow> Person list \<times> (string \<times> BoundingBox list) list \<Rightarrow>
     Person list \<times> (string \<times> BoundingBox list) list" where
  "general_labels cfg [] acc = acc"
| "general_labels cfg (l # response_labels) (population_list, equipment_boxes) =
     (case Instances l of
        Some entries \<Rightarrow>
          if lower (Name l) \<in> set (PERSON_KEYS cfg)
          then general_labels cfg response_labels
                 (general_person_entries entries population_list, equipment_boxes)
          else general_labels cfg response_labels
                 (population_list, general_groups l entries (TARGET_PPE_GROUP_KEYS cfg) equipment_boxes)
      | None \<Rightarrow> general_labels cfg response_labels (population_list, equipment_boxes))"

definition parse_general_objects ::
  "Config \<Rightarrow> label list \<Rightarrow> Person list \<times> (string \<times> BoundingBox list) list" where
  "parse_general_objects cfg response_labels = general_labels cfg response_labels ([], [])"

subsection \<open>\<^verbatim>\<open>parse_objects\<close> of \<^verbatim>\<open>Lambda_PreTrained.py\<close>\<close>

text \<open>The argument is the list under the key \<^verbatim>\<open>Labels\<close> of the provider's response.\<close>

fun pretrained_person_entries ::
  "entry list \<Rightarrow> Person_PreTrained list \<Rightarrow> Person_PreTrained list" where
  "pretrained_person_entries [] population_list = population_list"
| "pretrained_person_entries (entry # entries) population_list =
     (case (BoundingBox entry, Confidence entry) of
        (Some box_data, Some c) \<Rightarrow>
          pretrained_person_entries entries
            (population_list @ [new_Person_PreTrained\<lparr> box := Some (make_bounding_box box_data),
                                                  confidence := Some c \<rparr>])
      | _ \<Rightarrow> pretrained_person_entries entries population_list)"

fun pretrained_box_entries ::
  "string \<Rightarrow> entry list \<Rightarrow> (string \<times> BoundingBox list) list \<Rightarrow> (string \<times> BoundingBox list) list" where
  "pretrained_box_entries group_name [] equipment_boxes = equipment_boxes"
| "pretrained_box_entries group_name (entry # entries) equipment_boxes =
     (case (BoundingBox entry, Confidence entry) of
        (Some box_data, Some c) \<Rightarrow>
          pretrained_box_entries group_name entries
            (dd_append group_name (make_bounding_box box_data) equipment_boxes)
      | _ \<Rightarrow> pretrained_box_entries group_name entries equipment_boxes)"

fun pretrained_groups ::
  "label \<Rightarrow> entry list \<Rightarrow> (string \<times> string list) list \<Rightarrow>
     (string \<times> BoundingBox list) list \<Rightarrow> (string \<times> BoundingBox list) list" where
  "pretrained_groups l entries [] equipment_boxes = equipment_boxes"
| "pretrained_groups l entries ((group_name, names) # groups) equipment_boxes =
     (if Name l \<notin> set names
      then pretrained_groups l entries groups equipment_boxes
      else pretrained_groups l entries groups (pretrained_box_entries group_name entries equipment_boxes))"

fun pretrained_labels ::
  "Config \<Rightarrow> label list \<Rightarrow> Person_PreTrained list \<times> (string \<times> BoundingBox list) list \<Rightarrow>
     Person_PreTrained list \<times> (string \<times> BoundingBox list) list" where
  "pretrained_labels cfg [] acc = acc"
| "pretrained_labels cfg (l # response_labels) (population_list, equipment_boxes) =
     (case Instances l of
        Some entries \<Rightarrow>
          if Name l \<in> set (PERSON_KEYS cfg)
          then pretrained_labels cfg response_labels
                 (pretrained_person_entries entries population_list, equipment_boxes)
          else pretrained_labels cfg response_labels
                 (population_list, pretrained_groups l entries (TARGET_PPE_GROUP_KEYS cfg) equipment_boxes)
      | None \<Rightarrow> pretrained_labels cfg response_labels (population_list, equipment_boxes))"

definition parse_objects ::
  "Config \<Rightarrow> label list \<Rightarrow> Person_PreTrained list \<times> (string \<times> BoundingBox list) list" where
  "parse_objects cfg response_labels = pretrained_labels cfg response_labels ([], [])"

section \<open>Notions used in the statements and proofs\<close>

text \<open>
  \<open>hit \<sigma> r b\<close>: the person at address \<open>r\<close> has a box, and it intersects \<open>b\<close>.
  \<open>give \<sigma> W\<close>: the store in which every person \<open>r\<close> has the groups \<open>W r\<close> added.
\<close>

definition hit :: "'a store \<Rightarrow> nat \<Rightarrow> BoundingBox \<Rightarrow> bool" where
  "hit \<sigma> r b = (\<exists>person_box. box (\<sigma> r) = Some person_box \<and> if_boxes_intersect person_box b)"

definition give :: "'a store \<Rightarrow> (nat \<Rightarrow> string set) \<Rightarrow> 'a store" where
  "give \<sigma> W = (\<lambda>r. (\<sigma> r)\<lparr> equipment := equipment (\<sigma> r) \<union> W r \<rparr>)"

text \<open>
  A scene in a 100 by 100 pixel space: persons 0 and 1 overlap each other and a helmet lies in
  the overlap, a boot lies inside person 0 only, person 2 stands apart, and a mask lies away
  from everybody. \<open>scene_store\<close> is the store as the parser leaves it, \<open>scene_matched\<close> the
  store the matcher turns it into.
\<close>

definition box_at :: "real \<Rightarrow> real \<Rightarrow> real \<Rightarrow> real \<Rightarrow> BoundingBox" where
  "box_at l t w h = make_bounding_box \<lparr> Width = w, Height = h, Left = l, Top = t \<rparr>"

definition scene_store :: "unit store" where
  "scene_store =
     (\<lambda>r. new_Person)
       (0 := new_Person\<lparr> box := Some (box_at 0 0 50 50) \<rparr>,
        1 := new_Person\<lparr> box := Some (box_at 40 40 30 30) \<rparr>,
        2 := new_Person\<lparr> box := Some (box_at 80 80 10 10) \<rparr>)"

definition scene_boxes :: "(string \<times> BoundingBox list) list" where
  "scene_boxes =
     [(''helmet'', [box_at 45 45 2 2]), (''boot'', [box_at 10 10 5 5]), (''mask'', [box_at 95 95 1 1])]"

definition scene_matched :: "unit store" where
  "scene_matched =
     (\<lambda>r. new_Person)
       (0 := new_Person\<lparr> equipment := {''helmet'', ''boot''}, box := Some (box_at 0 0 50 50) \<rparr>,
        1 := new_Person\<lparr> equipment := {''helmet''}, box := Some (box_at 40 40 30 30) \<rparr>,
        2 := new_Person\<lparr> box := Some (box_at 80 80 10 10) \<rparr>)"

text \<open>
  One order in which a set of group names may be traversed: that of the configuration's
  declaration (\<open>helmet\<close> before \<open>boot\<close>).
\<close>

definition iter_config_order :: "string set \<Rightarrow> string list" where
  "iter_config_order S = filter (\<lambda>c. c \<in> S) [''helmet'', ''vest'', ''mask'', ''boot'']"

text \<open>
  \<^verbatim>\<open>getBoundingBoxCoordinates\<close> of \<^verbatim>\<open>lambda_function.py\<close> (it scales \<^verbatim>\<open>Top\<close> by the
  image width), and the dictionary \<^verbatim>\<open>getPersonsAndVests\<close> builds from one instance; then
  two persons and two vests in an image of width and height 1: the first vest touches
  person \<open>A\<close> along an edge and lies inside person \<open>B\<close>, the second lies inside \<open>A\<close> only.
\<close>

definition getBoundingBoxCoordinates :: "box_data \<Rightarrow> real \<Rightarrow> real \<Rightarrow> coordinates" where
  "getBoundingBoxCoordinates boundingBox imageWidth imageHeight =
     (let boxWidth = Width boundingBox * imageWidth;
          boxHeight = Height boundingBox * imageHeight;
          c_x1 = Left boundingBox * imageWidth;
          c_y1 = Top boundingBox * imageWidth;
          c_x2 = c_x1 + boxWidth;
          c_y2 = c_y1;
          c_x3 = c_x2;
          c_y3 = c_y1 + boxHeight;
          c_x4 = c_x1;
          c_y4 = c_y3
      in \<lparr> x1 = c_x1, y1 = c_y1, x2 = c_x2, y2 = c_y2, x3 = c_x3, y3 = c_y3, x4 = c_x4, y4 = c_y4 \<rparr>)"

definition detection_of :: "box_data \<Rightarrow> real \<Rightarrow> detection" where
  "detection_of boundingBox c =
     \<lparr> BoundingBox_d = boundingBox,
       BoundingBoxCoordinates = getBoundingBoxCoordinates boundingBox 1 1,
       Confidence_d = c \<rparr>"

definition person_A :: detection where
  "person_A = detection_of \<lparr> Width = 10, Height = 10, Left = 0, Top = 0 \<rparr> 90"

definition person_B :: detection where
  "person_B = detection_of \<lparr> Width = 10, Height = 10, Left = 5, Top = 0 \<rparr> 80"

definition vest_1 :: detection where
  "vest_1 = detection_of \<lparr> Width = 2, Height = 2, Left = 10, Top = 0 \<rparr> 70"

definition vest_2 :: detection where
  "vest_2 = detection_of \<lparr> Width = 1, Height = 1, Left = 1, Top = 1 \<rparr> 75"

text \<open>
  The text of the report, line by line, to state what \<^verbatim>\<open>prepare_message\<close> returns;
  \<open>brace_free\<close>: a text without \<open>{\<close> and \<open>}\<close>, which \<^verbatim>\<open>format\<close> copies as it is.
\<close>

definition brace_free :: "string \<Rightarrow> bool" where
  "brace_free t = (CHR ''{'' \<notin> set t \<and> CHR ''}'' \<notin> set t)"

definition group_line_text :: "Stats \<Rightarrow> string \<Rightarrow> string" where
  "group_line_text self g =
     ''Persons with '' @ g @ '': '' @ py_str (int (length (equipment2person self g))) @ ''.\<newline>''"

definition person_line_text :: "(string set \<Rightarrow> string list) \<Rightarrow> 'a store \<Rightarrow> nat \<times> nat \<Rightarrow> string" where
  "person_line_text iter \<sigma> entry =
     (case entry of (idx, person) \<Rightarrow>
        if equipment (\<sigma> person) \<noteq> {}
        then ''Person '' @ py_str (int idx) @ '' wears: ''
               @ join '', '' (iter (equipment (\<sigma> person))) @ ''.\<newline>''
        else ''Person '' @ py_str (int idx) @ '' is unequipped.\<newline>'')"

text \<open>
  The first loop of \<^verbatim>\<open>lambda_handler\<close> in \<^verbatim>\<open>Lambda_PreTrained_and_CustomLabels.py\<close>
  deletes from \<^verbatim>\<open>TARGET_PPE_GROUP_KEYS\<close> every group that has a custom-label ARN and is
  not among the modules turned on; with the file's values (ARNs for \<open>vest\<close> and \<open>mask\<close>,
  only \<open>mask\<close> turned on) that leaves \<open>helmet\<close>, \<open>mask\<close> and \<open>boot\<close>.
  \<open>iter_alphabetical\<close> is a second order in which a set of group names may be traversed.
\<close>

definition active_groups :: "string list \<Rightarrow> string list \<Rightarrow> Config \<Rightarrow> Config" where
  "active_groups custom_label_arns turned_on_custom_modules cfg =
     cfg\<lparr> TARGET_PPE_GROUP_KEYS :=
            filter (\<lambda>(key_entry, names).
                      \<not> (key_entry \<in> set custom_label_arns \<and> key_entry \<notin> set turned_on_custom_modules))
              (TARGET_PPE_GROUP_KEYS cfg) \<rparr>"

definition Config_CustomLabels_active :: Config where
  "Config_CustomLabels_active = active_groups [''vest'', ''mask''] [''mask''] Config_CustomLabels"

definition iter_alphabetical :: "string set \<Rightarrow> string list" where
  "iter_alphabetical S = filter (\<lambda>c. c \<in> S) [''boot'', ''helmet'', ''mask'', ''vest'']"

text \<open>
  Instances as the provider may return them: complete, without a confidence, without a
  bounding box.
\<close>

definition example_box :: box_data where
  "example_box = \<lparr> Width = 50, Height = 50, Left = 0, Top = 0 \<rparr>"

definition entry_full :: entry where
  "entry_full = \<lparr> BoundingBox = Some example_box, Confidence = Some 99 \<rparr>"

definition entry_no_confidence :: entry where
  "entry_no_confidence = \<lparr> BoundingBox = Some example_box, Confidence = None \<rparr>"

definition entry_no_box :: entry where
  "entry_no_box = \<lparr> BoundingBox = None, Confidence = Some 99 \<rparr>"

section \<open>Properties of the intersection predicate\<close>

lemma if_intervals_intersect_unfold:
  "if_intervals_intersect a b = (if min_val b < min_val a then min_val a < max_val b else min_val b < max_val a)"
  by (simp add: if_intervals_intersect_def)

lemma if_boxes_intersect_unfold:
  "if_boxes_intersect A B =
     (if_intervals_intersect (x_interval A) (x_interval B) \<and>
      if_intervals_intersect (y_interval A) (y_interval B))"
  by (simp add: if_boxes_intersect_def)

text \<open>
  Symmetry of the interval test holds whenever the two lower ends differ, and on equal
  lower ends exactly when both intervals or neither has positive length.
\<close>

lemma if_intervals_intersect_sym_iff:
  "(if_intervals_intersect a b = if_intervals_intersect b a) =
     (min_val a = min_val b \<longrightarrow> (min_val a < max_val a) = (min_val b < max_val b))"
  by (auto simp: if_intervals_intersect_unfold)

lemma if_boxes_intersect_sym_proper:
  assumes "min_val (x_interval A) < max_val (x_interval A)" "min_val (y_interval A) < max_val (y_interval A)"
    and "min_val (x_interval B) < max_val (x_interval B)" "min_val (y_interval B) < max_val (y_interval B)"
  shows "if_boxes_intersect A B = if_boxes_intersect B A"
  using assms by (auto simp: if_boxes_intersect_unfold if_intervals_intersect_unfold)

text \<open>
  What holds of the two predicates for all arguments: \<^verbatim>\<open>if_intervals_intersect\<close> treats
  the interval with the smaller \<open>min\<close> as the left one (the first argument when the two are
  equal) and returns whether \<open>right.min < left.max\<close> holds strictly;
  \<^verbatim>\<open>if_boxes_intersect\<close> is the conjunction of the tests of the x- and of the
  y-projections; and when a projection of \<open>A\<close> has positive length and ends exactly where
  that projection of \<open>B\<close> begins, the boxes do not intersect, in either argument order.
\<close>

lemma strict_intersection_proper:
  "(min_val a \<le> min_val b \<longrightarrow> if_intervals_intersect a b = (min_val b < max_val a)) \<and>
   (min_val b < min_val a \<longrightarrow> if_intervals_intersect a b = (min_val a < max_val b)) \<and>
   if_boxes_intersect A B =
     (if_intervals_intersect (x_interval A) (x_interval B) \<and>
      if_intervals_intersect (y_interval A) (y_interval B)) \<and>
   ((min_val (x_interval A) < max_val (x_interval A) \<and> max_val (x_interval A) = min_val (x_interval B)) \<or>
    (min_val (y_interval A) < max_val (y_interval A) \<and> max_val (y_interval A) = min_val (y_interval B))
      \<longrightarrow> \<not> if_boxes_intersect A B \<and> \<not> if_boxes_intersect B A)"
  by (auto simp: if_boxes_intersect_unfold if_intervals_intersect_unfold)

lemma touching_squares_apart:
  "\<not> if_boxes_intersect (corners 0 0 1 1) (corners 1 0 2 1) \<and>
   \<not> if_boxes_intersect (corners 1 0 2 1) (corners 0 0 1 1)"
  by (simp add: if_boxes_intersect_unfold if_intervals_intersect_unfold corners_def)

text \<open>
  Claim C2 (the test is strict, so two boxes that only touch at a shared edge or corner do
  not intersect) does not hold of the code for every pair of boxes. Box \<open>A\<close>, which
  \<^verbatim>\<open>make_bounding_box\<close> returns for a detection of width 0 at \<open>Left = 1\<close>, lies exactly on
  the left edge of \<open>B = [1,0]-[2,1]\<close>: the two only touch. Called as
  \<^verbatim>\<open>if_boxes_intersect(B, A)\<close> the code finds equal \<open>min\<close> in the x-projections, does not
  swap, and tests \<open>1 < 2\<close> against the first argument's \<open>max\<close>: it answers that they
  intersect. In the other argument order it answers that they do not. The claim's own
  pair, \<open>[0,0]-[1,1]\<close> and \<open>[1,0]-[2,1]\<close>, does not intersect in either order.
\<close>

theorem C2_touching_degenerate_intersects:
  "make_bounding_box \<lparr> Width = 0, Height = 1, Left = 1, Top = 0 \<rparr> = corners 1 0 1 1 \<and>
   make_bounding_box \<lparr> Width = 1, Height = 1, Left = 1, Top = 0 \<rparr> = corners 1 0 2 1 \<and>
   if_boxes_intersect (corners 1 0 2 1) (corners 1 0 1 1) \<and>
   \<not> if_boxes_intersect (corners 1 0 1 1) (corners 1 0 2 1) \<and>
   \<not> if_boxes_intersect (corners 0 0 1 1) (corners 1 0 2 1) \<and>
   \<not> if_boxes_intersect (corners 1 0 2 1) (corners 0 0 1 1)"
  by (simp add: if_boxes_intersect_unfold if_intervals_intersect_unfold corners_def
      make_bounding_box_def)

text \<open>
  Claim C4 (symmetry for all boxes, degenerate ones included) does not hold of the code.
  When the two x-intervals start at the same point and only one of them has positive length,
  no swap takes place and \<^verbatim>\<open>rhs.min < lhs.max\<close> reads the first argument's \<open>max\<close>, so
  the answer of \<^verbatim>\<open>if_boxes_intersect\<close> depends on the order of its arguments. Here the
  first box is what \<^verbatim>\<open>make_bounding_box\<close> returns for a detection of width 0 at the left
  border, the second is the unit square. (For boxes of positive width and height the
  predicate is symmetric: \<open>if_boxes_intersect_sym_proper\<close>.)
\<close>

theorem C4_symmetry_fails_degenerate:
  "make_bounding_box \<lparr> Width = 0, Height = 1, Left = 0, Top = 0 \<rparr> = corners 0 0 0 1 \<and>
   make_bounding_box \<lparr> Width = 1, Height = 1, Left = 0, Top = 0 \<rparr> = corners 0 0 1 1 \<and>
   \<not> if_boxes_intersect (corners 0 0 0 1) (corners 0 0 1 1) \<and>
   if_boxes_intersect (corners 0 0 1 1) (corners 0 0 0 1)"
  by (simp add: if_boxes_intersect_unfold if_intervals_intersect_unfold corners_def
      make_bounding_box_def)

text \<open>
  Claim C9. A box with a degenerate projection (\<open>min = max\<close> on the x- or on the y-axis)
  does not intersect itself, and neither does a degenerate interval \<open>[c, c]\<close>.
\<close>

theorem C9_degenerate_not_reflexive:
  "(min_val (x_interval A) = max_val (x_interval A) \<or> min_val (y_interval A) = max_val (y_interval A)
      \<longrightarrow> \<not> if_boxes_intersect A A) \<and>
   \<not> if_intervals_intersect \<lparr>min_val = c, max_val = c\<rparr> \<lparr>min_val = c, max_val = c\<rparr>"
  by (auto simp: if_boxes_intersect_unfold if_intervals_intersect_unfold)

theorem C9_degenerate_not_reflexive_witness:
  "\<not> if_boxes_intersect (corners 0 0 0 1) (corners 0 0 0 1) \<and>
   \<not> if_boxes_intersect (corners 0 2 1 2) (corners 0 2 1 2) \<and>
   \<not> if_intervals_intersect \<lparr>min_val = 3, max_val = 3\<rparr> \<lparr>min_val = 3, max_val = 3\<rparr>"
  using C9_degenerate_not_reflexive [of "corners 0 0 0 1" 3]
    C9_degenerate_not_reflexive [of "corners 0 2 1 2" 3]
  by (simp add: corners_def)


section \<open>The one-to-one matcher of \<^verbatim>\<open>lambda_function.py\<close>\<close>

lemma foldl_snoc_copy: "foldl (\<lambda>acc x. acc @ [x]) ys xs = ys @ xs"
  by (induction xs arbitrary: ys) auto

lemma py_getitem_nat: "i < length xs \<Longrightarrow> py_getitem xs (int i) = Inr (xs ! i)"
  by (simp add: py_getitem_def)

lemma py_delitem_nat: "i < length xs \<Longrightarrow> py_delitem xs (int i) = Inr (take i xs @ drop (Suc i) xs)"
  by (simp add: py_delitem_def)

lemma first_overlap_None: "first_overlap v ps = None \<longleftrightarrow> (\<forall>p \<in> set ps. \<not> overlaps v p)"
  by (induction ps) auto

lemma first_overlap_Some:
  "first_overlap v ps = Some i \<Longrightarrow> i < length ps \<and> overlaps v (ps ! i) \<and> (\<forall>j<i. \<not> overlaps v (ps ! j))"
proof (induction ps arbitrary: i)
  case Nil
  then show ?case by simp
next
  case (Cons p ps)
  show ?case
  proof (cases "overlaps v p")
    case True
    with Cons.prems show ?thesis by simp
  next
    case False
    with Cons.prems obtain k where k: "first_overlap v ps = Some k" "i = Suc k" by auto
    from Cons.IH [OF k(1)] False k(2) show ?thesis
      by (auto simp: less_Suc_eq_0_disj)
  qed
qed

lemma inner_loop_scan:
  assumes "k \<le> length (persons st)" "matched st \<le> h" "nat (h - matched st) < length (vests st)"
  shows "inner_loop st vest h (int (length (persons st))) (int k) =
     Inr (case first_overlap vest (drop k (persons st)) of
            None \<Rightarrow> st
          | Some i \<Rightarrow> st\<lparr> personsWithvests :=
                            personsWithvests st @ [\<lparr> Person = persons st ! (k + i), Vest = vest \<rparr>],
                          persons := take (k + i) (persons st) @ drop (Suc (k + i)) (persons st),
                          vests := take (nat (h - matched st)) (vests st)
                                   @ drop (Suc (nat (h - matched st))) (vests st),
                          matched := matched st + 1 \<rparr>)"
  using assms
proof (induction "length (persons st) - k" arbitrary: k)
  case 0
  then have "k = length (persons st)" by simp
  then show ?case by (subst inner_loop.simps) simp
next
  case (Suc n)
  then have klt: "k < length (persons st)" by simp
  then have dr: "drop k (persons st) = persons st ! k # drop (Suc k) (persons st)"
    by (simp add: Cons_nth_drop_Suc)
  have vd: "py_delitem (vests st) (h - matched st) =
      Inr (take (nat (h - matched st)) (vests st) @ drop (Suc (nat (h - matched st))) (vests st))"
    using Suc.prems py_delitem_nat [of "nat (h - matched st)" "vests st"] by simp
  show ?case
  proof (cases "overlaps vest (persons st ! k)")
    case True
    then show ?thesis
      using klt dr vd by (subst inner_loop.simps) (simp add: py_getitem_nat py_delitem_nat)
  next
    case False
    have n: "n = length (persons st) - Suc k" using Suc.hyps(2) by simp
    have step: "inner_loop st vest h (int (length (persons st))) (int k) =
        inner_loop st vest h (int (length (persons st))) (int (Suc k))"
      using False klt by (subst inner_loop.simps) (simp add: py_getitem_nat add.commute)
    show ?thesis
      unfolding step using Suc.hyps(1) [OF n] klt Suc.prems False dr
      by (simp split: option.split)
  qed
qed


lemma outer_loop_greedy:
  assumes "vests st = us @ rest" "matched st \<le> h" "length us = nat (h - matched st)"
    and "totalvests = h + int (length rest)"
  shows "outer_loop st totalvests h =
     Inr (case greedy_spec (persons st) rest of
            (m, ps', vs') \<Rightarrow>
              st\<lparr> personsWithvests := personsWithvests st @ m, persons := ps',
                  vests := us @ vs', matched := matched st + int (length m) \<rparr>)"
  using assms
proof (induction rest arbitrary: st h us)
  case Nil
  then show ?case by (subst outer_loop.simps) simp
next
  case (Cons v rest)
  have idx: "nat (h - matched st) < length (vests st)"
    using Cons.prems by simp
  have getv: "py_getitem (vests st) (h - matched st) = Inr v"
    using py_getitem_nat [OF idx] Cons.prems by (simp add: nth_append)
  have hlt: "h < totalvests" using Cons.prems by simp
  have del: "take (nat (h - matched st)) (vests st) @ drop (Suc (nat (h - matched st))) (vests st)
      = us @ rest"
    using Cons.prems by simp
  note scan = inner_loop_scan [of 0 st h v, simplified, OF Cons.prems(2) idx]
  show ?case
  proof (cases "first_overlap v (persons st)")
    case None
    have inner: "inner_loop st v h (int (length (persons st))) 0 = Inr st"
      using scan None by simp
    have step: "outer_loop st totalvests h = outer_loop st totalvests (h + 1)"
      using hlt getv inner by (subst outer_loop.simps) simp
    have "outer_loop st totalvests (h + 1) =
       Inr (case greedy_spec (persons st) rest of
            (m, ps', vs') \<Rightarrow>
              st\<lparr> personsWithvests := personsWithvests st @ m, persons := ps',
                  vests := (us @ [v]) @ vs', matched := matched st + int (length m) \<rparr>)"
      using Cons.prems by (intro Cons.IH) auto
    then show ?thesis
      unfolding step using None by (simp split: prod.split)
  next
    case (Some i)
    define st' where "st' = st\<lparr> personsWithvests :=
                            personsWithvests st @ [\<lparr> Person = persons st ! i, Vest = v \<rparr>],
                          persons := take i (persons st) @ drop (Suc i) (persons st),
                          vests := us @ rest,
                          matched := matched st + 1 \<rparr>"
    have inner: "inner_loop st v h (int (length (persons st))) 0 = Inr st'"
      using scan Some del by (simp add: st'_def)
    have step: "outer_loop st totalvests h = outer_loop st' totalvests (h + 1)"
      using hlt getv inner by (subst outer_loop.simps) simp
    have "outer_loop st' totalvests (h + 1) =
       Inr (case greedy_spec (persons st') rest of
            (m, ps', vs') \<Rightarrow>
              st'\<lparr> personsWithvests := personsWithvests st' @ m, persons := ps',
                  vests := us @ vs', matched := matched st' + int (length m) \<rparr>)"
      using Cons.prems by (intro Cons.IH) (auto simp: st'_def)
    then show ?thesis
      unfolding step using Some by (simp add: st'_def split: prod.split)
  qed
qed

lemma matchPersonsAndVests_greedy:
  "matchPersonsAndVests personsList vestsList = Inr (greedy_spec personsList vestsList)"
proof -
  let ?st0 = "\<lparr> persons = personsList, vests = vestsList, personsWithvests = [], matched = 0 \<rparr>"
  have "outer_loop ?st0 (int (length vestsList)) 0 =
     Inr (case greedy_spec (persons ?st0) vestsList of
            (m, ps', vs') \<Rightarrow>
              ?st0\<lparr> personsWithvests := personsWithvests ?st0 @ m, persons := ps',
                  vests := [] @ vs', matched := matched ?st0 + int (length m) \<rparr>)"
    by (rule outer_loop_greedy) auto
  then show ?thesis
    by (simp add: matchPersonsAndVests_def foldl_snoc_copy split: prod.split)
qed

lemma mset_delete_nth: "i < length xs \<Longrightarrow> add_mset (xs ! i) (mset (take i xs @ drop (Suc i) xs)) = mset xs"
  by (metis Cons_nth_drop_Suc append_take_drop_id mset.simps(2) mset_append union_mset_add_mset_right)

lemma greedy_spec_persons:
  "greedy_spec ps vs = (m, ps', vs') \<Longrightarrow> mset (map Person m) + mset ps' = mset ps"
proof (induction vs arbitrary: ps m ps' vs')
  case Nil
  then show ?case by simp
next
  case (Cons v vs)
  show ?case
  proof (cases "first_overlap v ps")
    case None
    with Cons.prems obtain vs0 where "greedy_spec ps vs = (m, ps', vs0)"
      by (auto split: prod.splits)
    then show ?thesis by (rule Cons.IH)
  next
    case (Some i)
    with Cons.prems obtain m0 vs0 where
      g: "greedy_spec (take i ps @ drop (Suc i) ps) vs = (m0, ps', vs0)"
      and m: "m = \<lparr> Person = ps ! i, Vest = v \<rparr> # m0"
      by (auto split: prod.splits)
    have "i < length ps" using first_overlap_Some [OF Some] by simp
    from Cons.IH [OF g] mset_delete_nth [OF this] m show ?thesis
      by (metis (no_types, lifting) list.simps(9) mset.simps(2) pair.select_convs(1) union_mset_add_mset_left)
  qed
qed

lemma greedy_spec_vests:
  "greedy_spec ps vs = (m, ps', vs') \<Longrightarrow> mset (map Vest m) + mset vs' = mset vs"
proof (induction vs arbitrary: ps m ps' vs')
  case Nil
  then show ?case by simp
next
  case (Cons v vs)
  show ?case
  proof (cases "first_overlap v ps")
    case None
    with Cons.prems obtain vs0 where g: "greedy_spec ps vs = (m, ps', vs0)" and "vs' = v # vs0"
      by (auto split: prod.splits)
    with Cons.IH [OF g] show ?thesis by simp
  next
    case (Some i)
    with Cons.prems obtain m0 where
      g: "greedy_spec (take i ps @ drop (Suc i) ps) vs = (m0, ps', vs')"
      and m: "m = \<lparr> Person = ps ! i, Vest = v \<rparr> # m0"
      by (auto split: prod.splits)
    from Cons.IH [OF g] m show ?thesis by simp
  qed
qed

lemma greedy_spec_overlaps:
  "greedy_spec ps vs = (m, ps', vs') \<Longrightarrow> list_all (\<lambda>pr. overlaps (Vest pr) (Person pr)) m"
proof (induction vs arbitrary: ps m ps' vs')
  case Nil
  then show ?case by simp
next
  case (Cons v vs)
  show ?case
  proof (cases "first_overlap v ps")
    case None
    with Cons.prems obtain vs0 where "greedy_spec ps vs = (m, ps', vs0)"
      by (auto split: prod.splits)
    then show ?thesis by (rule Cons.IH)
  next
    case (Some i)
    with Cons.prems obtain m0 vs0 where
      g: "greedy_spec (take i ps @ drop (Suc i) ps) vs = (m0, ps', vs0)"
      and m: "m = \<lparr> Person = ps ! i, Vest = v \<rparr> # m0"
      by (auto split: prod.splits)
    from Cons.IH [OF g] m first_overlap_Some [OF Some] show ?thesis by simp
  qed
qed


text \<open>
  Claim C10. \<^verbatim>\<open>matchPersonsAndVests\<close> never raises and returns what the one-to-one
  greedy policy returns: vests in list order, each paired with the first person in list
  order that is still unmatched and that it overlaps, the pair leaving the matching. The
  persons of the pairs together with the persons returned unmatched are the input persons,
  each once (as multisets), and likewise the vests, so the number of pairs plus the number
  of unmatched persons (vests) is the number of input persons (vests); every pair
  overlaps; and the overlap test is not strict: boxes that share only an edge overlap.
\<close>

theorem C10_greedy_one_to_one:
  "matchPersonsAndVests personsList vestsList = Inr (greedy_spec personsList vestsList) \<and>
   (case greedy_spec personsList vestsList of
      (pairs, persons_left, vests_left) \<Rightarrow>
        mset (map Person pairs) + mset persons_left = mset personsList \<and>
        mset (map Vest pairs) + mset vests_left = mset vestsList \<and>
        length pairs + length persons_left = length personsList \<and>
        length pairs + length vests_left = length vestsList \<and>
        list_all (\<lambda>pr. overlaps (Vest pr) (Person pr)) pairs) \<and>
   overlaps vest person =
     (x1 (BoundingBoxCoordinates person) \<le> x2 (BoundingBoxCoordinates vest) \<and>
      x1 (BoundingBoxCoordinates vest) \<le> x2 (BoundingBoxCoordinates person) \<and>
      y1 (BoundingBoxCoordinates person) \<le> y4 (BoundingBoxCoordinates vest) \<and>
      y1 (BoundingBoxCoordinates vest) \<le> y4 (BoundingBoxCoordinates person))"
proof -
  obtain m ps' vs' where g: "greedy_spec personsList vestsList = (m, ps', vs')"
    by (cases "greedy_spec personsList vestsList") auto
  have p: "mset (map Person m) + mset ps' = mset personsList"
    by (rule greedy_spec_persons [OF g])
  have v: "mset (map Vest m) + mset vs' = mset vestsList"
    by (rule greedy_spec_vests [OF g])
  have lp: "length m + length ps' = length personsList"
    using arg_cong [OF p, of size] by simp
  have lv: "length m + length vs' = length vestsList"
    using arg_cong [OF v, of size] by simp
  have ov: "list_all (\<lambda>pr. overlaps (Vest pr) (Person pr)) m"
    by (rule greedy_spec_overlaps [OF g])
  have edge: "overlaps vest person =
     (x1 (BoundingBoxCoordinates person) \<le> x2 (BoundingBoxCoordinates vest) \<and>
      x1 (BoundingBoxCoordinates vest) \<le> x2 (BoundingBoxCoordinates person) \<and>
      y1 (BoundingBoxCoordinates person) \<le> y4 (BoundingBoxCoordinates vest) \<and>
      y1 (BoundingBoxCoordinates vest) \<le> y4 (BoundingBoxCoordinates person))"
    by (auto simp: overlaps_def)
  show ?thesis
    using matchPersonsAndVests_greedy [of personsList vestsList] g p v lp lv ov edge by simp
qed

lemma example_overlaps:
  "overlaps vest_1 person_A" "overlaps vest_1 person_B"
  "overlaps vest_2 person_A" "\<not> overlaps vest_2 person_B"
  by (simp_all add: overlaps_def vest_1_def vest_2_def person_A_def person_B_def
      detection_of_def getBoundingBoxCoordinates_def Let_def)

theorem C10_greedy_one_to_one_witness:
  "matchPersonsAndVests [person_A, person_B] [vest_1, vest_2] =
     Inr ([\<lparr> Person = person_A, Vest = vest_1 \<rparr>], [person_B], [vest_2]) \<and>
   x2 (BoundingBoxCoordinates person_A) = x1 (BoundingBoxCoordinates vest_1)"
proof -
  have "greedy_spec [person_A, person_B] [vest_1, vest_2] =
      ([\<lparr> Person = person_A, Vest = vest_1 \<rparr>], [person_B], [vest_2])"
    by (simp add: example_overlaps)
  moreover have "x2 (BoundingBoxCoordinates person_A) = x1 (BoundingBoxCoordinates vest_1)"
    by (simp add: vest_1_def person_A_def detection_of_def getBoundingBoxCoordinates_def Let_def)
  ultimately show ?thesis
    using C10_greedy_one_to_one [of "[person_A, person_B]" "[vest_1, vest_2]"] by simp
qed

section \<open>The matcher of \<^verbatim>\<open>build_stats\<close>\<close>

lemma give_empty [simp]: "give \<sigma> (\<lambda>r. {}) = \<sigma>"
  by (simp add: give_def)

lemma give_give: "give (give \<sigma> W1) W2 = give \<sigma> (\<lambda>r. W1 r \<union> W2 r)"
  by (simp add: give_def Un_assoc)

lemma box_give [simp]: "box (give \<sigma> W r) = box (\<sigma> r)"
  by (simp add: give_def)

lemma hit_give [simp]: "hit (give \<sigma> W) r b = hit \<sigma> r b"
  by (simp add: hit_def)

lemma give_cong: "(\<And>r. W r = W' r) \<Longrightarrow> give \<sigma> W = give \<sigma> W'"
  by (simp add: give_def)

lemma give_one:
  "\<sigma>(p := (\<sigma> p)\<lparr> equipment := insert g (equipment (\<sigma> p)) \<rparr>) = give \<sigma> (\<lambda>r. if r = p then {g} else {})"
  by (auto simp: give_def fun_eq_iff)

lemma match_box_population_give:
  "\<forall>r \<in> set rs. box (\<sigma> r) \<noteq> None \<Longrightarrow>
   match_box_population \<sigma> g b rs = Inr (give \<sigma> (\<lambda>r. if r \<in> set rs \<and> hit \<sigma> r b then {g} else {}))"
proof (induction rs arbitrary: \<sigma>)
  case Nil
  then show ?case by simp
next
  case (Cons p rs)
  then obtain pb where pb: "box (\<sigma> p) = Some pb" by auto
  show ?case
  proof (cases "if_boxes_intersect pb b")
    case True
    let ?\<sigma>1 = "give \<sigma> (\<lambda>r. if r = p then {g} else {})"
    have "\<forall>r \<in> set rs. box (?\<sigma>1 r) \<noteq> None" using Cons.prems by simp
    from Cons.IH [OF this]
    have "match_box_population ?\<sigma>1 g b rs =
        Inr (give \<sigma> (\<lambda>r. (if r = p then {g} else {}) \<union> (if r \<in> set rs \<and> hit \<sigma> r b then {g} else {})))"
      by (simp add: give_give)
    moreover have "give \<sigma> (\<lambda>r. (if r = p then {g} else {}) \<union> (if r \<in> set rs \<and> hit \<sigma> r b then {g} else {}))
        = give \<sigma> (\<lambda>r. if r \<in> set (p # rs) \<and> hit \<sigma> r b then {g} else {})"
      using True pb by (intro give_cong) (auto simp: hit_def)
    ultimately show ?thesis using True pb by (simp add: give_one)
  next
    case False
    have "\<forall>r \<in> set rs. box (\<sigma> r) \<noteq> None" using Cons.prems by simp
    from Cons.IH [OF this]
    have "match_box_population \<sigma> g b rs =
        Inr (give \<sigma> (\<lambda>r. if r \<in> set rs \<and> hit \<sigma> r b then {g} else {}))" .
    moreover have "give \<sigma> (\<lambda>r. if r \<in> set rs \<and> hit \<sigma> r b then {g} else {})
        = give \<sigma> (\<lambda>r. if r \<in> set (p # rs) \<and> hit \<sigma> r b then {g} else {})"
      using False pb by (intro give_cong) (auto simp: hit_def)
    ultimately show ?thesis using False pb by simp
  qed
qed

lemma match_group_boxes_give:
  "\<forall>r \<in> set rs. box (\<sigma> r) \<noteq> None \<Longrightarrow>
   match_group_boxes \<sigma> g bs rs =
     Inr (give \<sigma> (\<lambda>r. if r \<in> set rs \<and> (\<exists>b \<in> set bs. hit \<sigma> r b) then {g} else {}))"
proof (induction bs arbitrary: \<sigma>)
  case Nil
  then show ?case by simp
next
  case (Cons b bs)
  let ?W = "\<lambda>r. if r \<in> set rs \<and> hit \<sigma> r b then {g} else {}"
  have first: "match_box_population \<sigma> g b rs = Inr (give \<sigma> ?W)"
    by (rule match_box_population_give [OF Cons.prems])
  have "\<forall>r \<in> set rs. box (give \<sigma> ?W r) \<noteq> None" using Cons.prems by simp
  from Cons.IH [OF this]
  have "match_group_boxes (give \<sigma> ?W) g bs rs =
      Inr (give \<sigma> (\<lambda>r. ?W r \<union> (if r \<in> set rs \<and> (\<exists>b \<in> set bs. hit \<sigma> r b) then {g} else {})))"
    by (simp add: give_give)
  moreover have "give \<sigma> (\<lambda>r. ?W r \<union> (if r \<in> set rs \<and> (\<exists>b \<in> set bs. hit \<sigma> r b) then {g} else {}))
      = give \<sigma> (\<lambda>r. if r \<in> set rs \<and> (\<exists>b \<in> set (b # bs). hit \<sigma> r b) then {g} else {})"
    by (intro give_cong) auto
  ultimately show ?case using first by simp
qed

lemma build_stats_matching_give:
  "\<forall>r \<in> set rs. box (\<sigma> r) \<noteq> None \<Longrightarrow>
   build_stats_matching \<sigma> rs eb =
     Inr (give \<sigma> (\<lambda>r. if r \<in> set rs
                        then {c. \<exists>bs b. (c, bs) \<in> set eb \<and> b \<in> set bs \<and> hit \<sigma> r b} else {}))"
proof (induction eb arbitrary: \<sigma>)
  case Nil
  then show ?case by (simp cong: if_cong)
next
  case (Cons gb eb)
  obtain g bs where gb: "gb = (g, bs)" by (cases gb)
  let ?W = "\<lambda>r. if r \<in> set rs \<and> (\<exists>b \<in> set bs. hit \<sigma> r b) then {g} else {}"
  have first: "match_group_boxes \<sigma> g bs rs = Inr (give \<sigma> ?W)"
    by (rule match_group_boxes_give [OF Cons.prems])
  have "\<forall>r \<in> set rs. box (give \<sigma> ?W r) \<noteq> None" using Cons.prems by simp
  from Cons.IH [OF this]
  have "build_stats_matching (give \<sigma> ?W) rs eb =
      Inr (give \<sigma> (\<lambda>r. ?W r \<union> (if r \<in> set rs
                        then {c. \<exists>bs b. (c, bs) \<in> set eb \<and> b \<in> set bs \<and> hit \<sigma> r b} else {})))"
    by (simp add: give_give cong: if_cong)
  moreover have "give \<sigma> (\<lambda>r. ?W r \<union> (if r \<in> set rs
                        then {c. \<exists>bs b. (c, bs) \<in> set eb \<and> b \<in> set bs \<and> hit \<sigma> r b} else {}))
      = give \<sigma> (\<lambda>r. if r \<in> set rs
                        then {c. \<exists>bs b. (c, bs) \<in> set (gb # eb) \<and> b \<in> set bs \<and> hit \<sigma> r b} else {})"
    unfolding gb by (intro give_cong) auto
  ultimately show ?case using first gb by simp
qed


lemma match_person_boxes_give:
  "box (\<sigma> p) \<noteq> None \<Longrightarrow>
   match_person_boxes \<sigma> p g bs =
     Inr (give \<sigma> (\<lambda>r. if r = p \<and> (\<exists>b \<in> set bs. hit \<sigma> r b) then {g} else {}))"
proof (induction bs arbitrary: \<sigma>)
  case Nil
  then show ?case by simp
next
  case (Cons b bs)
  then obtain pb where pb: "box (\<sigma> p) = Some pb" by auto
  show ?case
  proof (cases "if_boxes_intersect pb b")
    case True
    let ?\<sigma>1 = "give \<sigma> (\<lambda>r. if r = p then {g} else {})"
    have "box (?\<sigma>1 p) \<noteq> None" using pb by simp
    from Cons.IH [of "?\<sigma>1"] this
    have "match_person_boxes ?\<sigma>1 p g bs =
        Inr (give \<sigma> (\<lambda>r. (if r = p then {g} else {}) \<union>
                          (if r = p \<and> (\<exists>b \<in> set bs. hit \<sigma> r b) then {g} else {})))"
      by (simp add: give_give)
    moreover have "give \<sigma> (\<lambda>r. (if r = p then {g} else {}) \<union>
                          (if r = p \<and> (\<exists>b \<in> set bs. hit \<sigma> r b) then {g} else {}))
        = give \<sigma> (\<lambda>r. if r = p \<and> (\<exists>b \<in> set (b # bs). hit \<sigma> r b) then {g} else {})"
      using True pb by (intro give_cong) (auto simp: hit_def)
    ultimately show ?thesis using True pb by (simp add: give_one)
  next
    case False
    have "match_person_boxes \<sigma> p g bs =
        Inr (give \<sigma> (\<lambda>r. if r = p \<and> (\<exists>b \<in> set bs. hit \<sigma> r b) then {g} else {}))"
      using Cons.IH [of \<sigma>] pb by simp
    moreover have "give \<sigma> (\<lambda>r. if r = p \<and> (\<exists>b \<in> set bs. hit \<sigma> r b) then {g} else {})
        = give \<sigma> (\<lambda>r. if r = p \<and> (\<exists>b \<in> set (b # bs). hit \<sigma> r b) then {g} else {})"
      using False pb by (intro give_cong) (auto simp: hit_def)
    ultimately show ?thesis using False pb by simp
  qed
qed

lemma match_person_groups_give:
  "box (\<sigma> p) \<noteq> None \<Longrightarrow>
   match_person_groups \<sigma> p eb =
     Inr (give \<sigma> (\<lambda>r. if r = p
                        then {c. \<exists>bs b. (c, bs) \<in> set eb \<and> b \<in> set bs \<and> hit \<sigma> r b} else {}))"
proof (induction eb arbitrary: \<sigma>)
  case Nil
  then show ?case by (simp cong: if_cong)
next
  case (Cons gb eb)
  obtain g bs where gb: "gb = (g, bs)" by (cases gb)
  let ?W = "\<lambda>r. if r = p \<and> (\<exists>b \<in> set bs. hit \<sigma> r b) then {g} else {}"
  have first: "match_person_boxes \<sigma> p g bs = Inr (give \<sigma> ?W)"
    using Cons.prems by (rule match_person_boxes_give)
  have "box (give \<sigma> ?W p) \<noteq> None" using Cons.prems by simp
  from Cons.IH [of "give \<sigma> ?W"] this
  have "match_person_groups (give \<sigma> ?W) p eb =
      Inr (give \<sigma> (\<lambda>r. ?W r \<union> (if r = p
                        then {c. \<exists>bs b. (c, bs) \<in> set eb \<and> b \<in> set bs \<and> hit \<sigma> r b} else {})))"
    by (simp add: give_give cong: if_cong)
  moreover have "give \<sigma> (\<lambda>r. ?W r \<union> (if r = p
                        then {c. \<exists>bs b. (c, bs) \<in> set eb \<and> b \<in> set bs \<and> hit \<sigma> r b} else {}))
      = give \<sigma> (\<lambda>r. if r = p
                        then {c. \<exists>bs b. (c, bs) \<in> set (gb # eb) \<and> b \<in> set bs \<and> hit \<sigma> r b} else {})"
    unfolding gb by (intro give_cong) auto
  ultimately show ?case using first gb by simp
qed

lemma build_stats_matching_PreTrained_give:
  "\<forall>r \<in> set rs. box (\<sigma> r) \<noteq> None \<Longrightarrow>
   build_stats_matching_PreTrained \<sigma> rs eb =
     Inr (give \<sigma> (\<lambda>r. if r \<in> set rs
                        then {c. \<exists>bs b. (c, bs) \<in> set eb \<and> b \<in> set bs \<and> hit \<sigma> r b} else {}))"
proof (induction rs arbitrary: \<sigma>)
  case Nil
  then show ?case by simp
next
  case (Cons p rs)
  let ?C = "\<lambda>r. {c. \<exists>bs b. (c, bs) \<in> set eb \<and> b \<in> set bs \<and> hit \<sigma> r b}"
  let ?W = "\<lambda>r. if r = p then ?C r else {}"
  have "box (\<sigma> p) \<noteq> None" using Cons.prems by simp
  then have first: "match_person_groups \<sigma> p eb = Inr (give \<sigma> ?W)"
    by (rule match_person_groups_give)
  have "\<forall>r \<in> set rs. box (give \<sigma> ?W r) \<noteq> None" using Cons.prems by simp
  from Cons.IH [OF this]
  have "build_stats_matching_PreTrained (give \<sigma> ?W) rs eb =
      Inr (give \<sigma> (\<lambda>r. ?W r \<union> (if r \<in> set rs then ?C r else {})))"
    by (simp add: give_give cong: if_cong)
  moreover have "give \<sigma> (\<lambda>r. ?W r \<union> (if r \<in> set rs then ?C r else {}))
      = give \<sigma> (\<lambda>r. if r \<in> set (p # rs) then ?C r else {})"
    by (intro give_cong) auto
  ultimately show ?case using first by simp
qed

lemma give_from_empty:
  assumes "\<forall>r \<in> set rs. equipment (\<sigma> r) = {}"
  shows "give \<sigma> (\<lambda>r. if r \<in> set rs
            then {c. \<exists>bs b. (c, bs) \<in> set eb \<and> b \<in> set bs \<and> hit \<sigma> r b} else {})
     = (\<lambda>r. if r \<in> set rs
             then (\<sigma> r)\<lparr> equipment := {c. \<exists>bs b person_box. (c, bs) \<in> set eb \<and> b \<in> set bs \<and>
                                          box (\<sigma> r) = Some person_box \<and>
                                          if_boxes_intersect person_box b} \<rparr>
             else \<sigma> r)"
proof
  fix r
  have "{c. \<exists>bs b. (c, bs) \<in> set eb \<and> b \<in> set bs \<and> hit \<sigma> r b}
      = {c. \<exists>bs b person_box. (c, bs) \<in> set eb \<and> b \<in> set bs \<and>
              box (\<sigma> r) = Some person_box \<and> if_boxes_intersect person_box b}"
    by (auto simp: hit_def)
  then show "give \<sigma> (\<lambda>r. if r \<in> set rs
            then {c. \<exists>bs b. (c, bs) \<in> set eb \<and> b \<in> set bs \<and> hit \<sigma> r b} else {}) r
     = (if r \<in> set rs
             then (\<sigma> r)\<lparr> equipment := {c. \<exists>bs b person_box. (c, bs) \<in> set eb \<and> b \<in> set bs \<and>
                                          box (\<sigma> r) = Some person_box \<and>
                                          if_boxes_intersect person_box b} \<rparr>
             else \<sigma> r)"
    using assms by (simp add: give_def)
qed

text \<open>
  Claim C1. When every person of the list has an empty equipment set (and a bounding box),
  both matchers end without an exception, and afterwards the equipment of each person of
  the list is exactly the set of groups \<open>c\<close> with a box listed under \<open>c\<close> that intersects the
  person's box as \<^verbatim>\<open>if_boxes_intersect(person.box, box)\<close> says; nothing else of a person
  and no other object changes. So every person intersecting a box gets its group, a box
  intersecting nobody changes nothing, and a person intersecting no box keeps the empty set.
\<close>

theorem C1_matcher_exact:
  assumes "\<forall>r \<in> set people. equipment (\<sigma> r) = {} \<and> box (\<sigma> r) \<noteq> None"
  shows "build_stats_matching \<sigma> people equipment_boxes =
           Inr (\<lambda>r. if r \<in> set people
                    then (\<sigma> r)\<lparr> equipment :=
                            {c. \<exists>bs b person_box. (c, bs) \<in> set equipment_boxes \<and> b \<in> set bs \<and>
                                  box (\<sigma> r) = Some person_box \<and>
                                  if_boxes_intersect person_box b} \<rparr>
                    else \<sigma> r) \<and>
         build_stats_matching_PreTrained \<sigma> people equipment_boxes =
           build_stats_matching \<sigma> people equipment_boxes"
proof -
  have b: "\<forall>r \<in> set people. box (\<sigma> r) \<noteq> None" and e: "\<forall>r \<in> set people. equipment (\<sigma> r) = {}"
    using assms by auto
  show ?thesis
    using build_stats_matching_give [OF b, of equipment_boxes]
      build_stats_matching_PreTrained_give [OF b, of equipment_boxes]
      give_from_empty [OF e, of equipment_boxes]
    by simp
qed

lemma scene_hits:
  "if_boxes_intersect (box_at 0 0 50 50) (box_at 45 45 2 2)"
  "if_boxes_intersect (box_at 40 40 30 30) (box_at 45 45 2 2)"
  "\<not> if_boxes_intersect (box_at 80 80 10 10) (box_at 45 45 2 2)"
  "if_boxes_intersect (box_at 0 0 50 50) (box_at 10 10 5 5)"
  "\<not> if_boxes_intersect (box_at 40 40 30 30) (box_at 10 10 5 5)"
  "\<not> if_boxes_intersect (box_at 80 80 10 10) (box_at 10 10 5 5)"
  "\<not> if_boxes_intersect (box_at 0 0 50 50) (box_at 95 95 1 1)"
  "\<not> if_boxes_intersect (box_at 40 40 30 30) (box_at 95 95 1 1)"
  "\<not> if_boxes_intersect (box_at 80 80 10 10) (box_at 95 95 1 1)"
  by (simp_all add: box_at_def make_bounding_box_def Let_def if_boxes_intersect_unfold
      if_intervals_intersect_unfold)

theorem C1_matcher_exact_witness:
  "build_stats_matching scene_store [0, 1, 2] scene_boxes = Inr scene_matched \<and>
   build_stats_matching_PreTrained scene_store [0, 1, 2] scene_boxes = Inr scene_matched"
proof -
  have pre: "\<forall>r \<in> set [0, 1, 2]. equipment (scene_store r) = {} \<and> box (scene_store r) \<noteq> None"
    by (simp add: scene_store_def new_Person_def)
  note inst = C1_matcher_exact [OF pre, of scene_boxes]
  note m = conjunct1 [OF inst] and pt = conjunct2 [OF inst]
  have b: "box (scene_store 0) = Some (box_at 0 0 50 50)"
    "box (scene_store 1) = Some (box_at 40 40 30 30)"
    "box (scene_store 2) = Some (box_at 80 80 10 10)"
    by (simp_all add: scene_store_def new_Person_def)
  have w: "{c. \<exists>bs b person_box. (c, bs) \<in> set scene_boxes \<and> b \<in> set bs \<and>
            box (scene_store 0) = Some person_box \<and> if_boxes_intersect person_box b}
        = {''helmet'', ''boot''}"
    "{c. \<exists>bs b person_box. (c, bs) \<in> set scene_boxes \<and> b \<in> set bs \<and>
            box (scene_store 1) = Some person_box \<and> if_boxes_intersect person_box b} = {''helmet''}"
    "{c. \<exists>bs b person_box. (c, bs) \<in> set scene_boxes \<and> b \<in> set bs \<and>
            box (scene_store 2) = Some person_box \<and> if_boxes_intersect person_box b} = {}"
    unfolding b by (auto simp: scene_boxes_def scene_hits)
  have "(\<lambda>r. if r \<in> set [0, 1, 2]
            then (scene_store r)\<lparr> equipment :=
                   {c. \<exists>bs b person_box. (c, bs) \<in> set scene_boxes \<and> b \<in> set bs \<and>
                         box (scene_store r) = Some person_box \<and>
                         if_boxes_intersect person_box b} \<rparr>
            else scene_store r) = scene_matched"
  proof
    fix r :: nat
    consider "r = 0" | "r = 1" | "r = 2" | "r \<notin> set [0, 1, 2]" by auto
    then show "(if r \<in> set [0, 1, 2]
            then (scene_store r)\<lparr> equipment :=
                   {c. \<exists>bs b person_box. (c, bs) \<in> set scene_boxes \<and> b \<in> set bs \<and>
                         box (scene_store r) = Some person_box \<and>
                         if_boxes_intersect person_box b} \<rparr>
            else scene_store r) = scene_matched r"
    proof cases
      case 1
      then show ?thesis using w(1) by (simp add: scene_store_def scene_matched_def new_Person_def)
    next
      case 2
      then show ?thesis using w(2) by (simp add: scene_store_def scene_matched_def new_Person_def)
    next
      case 3
      then show ?thesis using w(3) by (simp add: scene_store_def scene_matched_def new_Person_def)
    next
      case 4
      then show ?thesis by (simp add: scene_store_def scene_matched_def)
    qed
  qed
  then show ?thesis
    unfolding pt m by simp
qed

section \<open>Class \<^verbatim>\<open>Stats\<close>: counts and indices\<close>

lemma sum_list_ones: "sum_list (map (\<lambda>x. 1) xs) = int (length xs)"
  by (induction xs) auto

lemma length_filter_split:
  "length (filter P xs) + length (filter (\<lambda>x. \<not> P x) xs) = length xs"
  by (induction xs) auto

lemma fold_keys_population:
  "population (fold (\<lambda>key self. self\<lparr> equipment2person :=
        (equipment2person self)(key := equipment2person self key @ [person]) \<rparr>) keys self) = population self"
  by (induction keys arbitrary: self) auto

lemma add_person_population:
  "population (snd (add_person iter (\<sigma>, self) person)) = population self @ [person]"
  by (simp add: add_person_def Let_def fold_keys_population)

lemma add_person_store:
  "fst (add_person iter (\<sigma>, self) person) =
     \<sigma>(person := (\<sigma> person)\<lparr> ind := Some (int (length (population self))) \<rparr>)"
  by (simp add: add_person_def Let_def)

lemma fold_add_person:
  "fold (\<lambda>person state. add_person iter state person) ps (\<sigma>, self) = (\<sigma>', self') \<Longrightarrow>
   population self' = population self @ ps \<and>
   (\<forall>r. equipment (\<sigma>' r) = equipment (\<sigma> r) \<and> box (\<sigma>' r) = box (\<sigma> r)) \<and>
   (\<forall>r. r \<notin> set ps \<longrightarrow> \<sigma>' r = \<sigma> r) \<and>
   (distinct ps \<longrightarrow> (\<forall>i < length ps. ind (\<sigma>' (ps ! i)) = Some (int (length (population self) + i))))"
proof (induction ps arbitrary: \<sigma> self)
  case Nil
  then show ?case by simp
next
  case (Cons p ps)
  obtain \<sigma>1 self1 where one: "add_person iter (\<sigma>, self) p = (\<sigma>1, self1)"
    by (cases "add_person iter (\<sigma>, self) p")
  have s1: "\<sigma>1 = \<sigma>(p := (\<sigma> p)\<lparr> ind := Some (int (length (population self))) \<rparr>)"
    using add_person_store [of iter \<sigma> self p] one by simp
  have p1: "population self1 = population self @ [p]"
    using add_person_population [of iter \<sigma> self p] one by simp
  from Cons.prems one
  have rest: "fold (\<lambda>person state. add_person iter state person) ps (\<sigma>1, self1) = (\<sigma>', self')"
    by simp
  note IH = Cons.IH [OF rest]
  have a: "population self' = population self @ p # ps" using IH p1 by simp
  have b: "\<forall>r. equipment (\<sigma>' r) = equipment (\<sigma> r) \<and> box (\<sigma>' r) = box (\<sigma> r)"
    using IH s1 by simp
  have c: "\<forall>r. r \<notin> set (p # ps) \<longrightarrow> \<sigma>' r = \<sigma> r" using IH s1 by simp
  have d: "distinct (p # ps) \<longrightarrow>
      (\<forall>i < length (p # ps). ind (\<sigma>' ((p # ps) ! i)) = Some (int (length (population self) + i)))"
  proof (intro impI allI)
    fix i
    assume dist: "distinct (p # ps)" and i: "i < length (p # ps)"
    show "ind (\<sigma>' ((p # ps) ! i)) = Some (int (length (population self) + i))"
    proof (cases i)
      case 0
      have "p \<notin> set ps" using dist by simp
      then have "\<sigma>' p = \<sigma>1 p" using IH by simp
      then show ?thesis using 0 s1 by simp
    next
      case (Suc j)
      then have "j < length ps" using i by simp
      moreover have "distinct ps" using dist by simp
      ultimately have "ind (\<sigma>' (ps ! j)) = Some (int (length (population self1) + j))"
        using IH by simp
      then show ?thesis using Suc p1 by simp
    qed
  qed
  from a b c d show ?case by blast
qed

lemma Stats_init_facts:
  assumes "Stats_init iter \<sigma> people = (\<sigma>', self)"
  shows "population self = people"
    and "equipment (\<sigma>' r) = equipment (\<sigma> r)"
    and "box (\<sigma>' r) = box (\<sigma> r)"
    and "r \<notin> set people \<Longrightarrow> \<sigma>' r = \<sigma> r"
    and "distinct people \<Longrightarrow> i < length people \<Longrightarrow> ind (\<sigma>' (people ! i)) = Some (int i)"
  using fold_add_person [of iter people \<sigma> "\<lparr> population = [], equipment2person = (\<lambda>key. []) \<rparr>" \<sigma>' self]
    assms
  by (simp_all add: Stats_init_def)

text \<open>
  Claim C6. For any store and any \<^verbatim>\<open>Stats\<close> value, \<^verbatim>\<open>equipped_size() + unequipped_size()\<close>
  is \<^verbatim>\<open>population_size()\<close>; \<^verbatim>\<open>unequipped_size\<close> is the number of entries of the
  population whose equipment is empty and \<^verbatim>\<open>equipped_size\<close> the number of those whose
  equipment is not. For the \<^verbatim>\<open>Stats\<close> that the constructor builds from a person list the
  population is that list and the counts are those of the list's persons (the constructor
  leaves every equipment set as it was).
\<close>

theorem C6_counts_partition:
  "equipped_size \<sigma> self + unequipped_size \<sigma> self = population_size self \<and>
   unequipped_size \<sigma> self = int (length (filter (\<lambda>r. equipment (\<sigma> r) = {}) (population self))) \<and>
   equipped_size \<sigma> self = int (length (filter (\<lambda>r. equipment (\<sigma> r) \<noteq> {}) (population self))) \<and>
   (case Stats_init iter \<sigma> people of
      (\<sigma>', constructed) \<Rightarrow>
        population constructed = people \<and>
        population_size constructed = int (length people) \<and>
        unequipped_size \<sigma>' constructed = int (length (filter (\<lambda>r. equipment (\<sigma> r) = {}) people)) \<and>
        equipped_size \<sigma>' constructed = int (length (filter (\<lambda>r. equipment (\<sigma> r) \<noteq> {}) people)))"
proof -
  have u: "unequipped_size s t = int (length (filter (\<lambda>r. equipment (s r) = {}) (population t)))"
    for s :: "'b store" and t
    by (simp add: unequipped_size_def sum_list_ones)
  have e: "equipped_size s t = int (length (filter (\<lambda>r. equipment (s r) \<noteq> {}) (population t)))"
    for s :: "'b store" and t
    using length_filter_split [of "\<lambda>r. equipment (s r) = {}" "population t"]
    by (simp add: equipped_size_def population_size_def u)
  obtain \<sigma>' constructed where c: "Stats_init iter \<sigma> people = (\<sigma>', constructed)"
    by (cases "Stats_init iter \<sigma> people")
  have eq: "(\<lambda>r. equipment (\<sigma>' r) = {}) = (\<lambda>r. equipment (\<sigma> r) = {})"
    using Stats_init_facts(2) [OF c] by simp
  have ne: "(\<lambda>r. equipment (\<sigma>' r) \<noteq> {}) = (\<lambda>r. equipment (\<sigma> r) \<noteq> {})"
    using Stats_init_facts(2) [OF c] by simp
  show ?thesis
    using u [of \<sigma> self] e [of \<sigma> self] u [of \<sigma>' constructed] e [of \<sigma>' constructed]
      Stats_init_facts(1) [OF c] c
    by (simp add: equipped_size_def population_size_def eq ne)
qed


theorem C6_counts_partition_witness:
  "(case Stats_init iter_config_order scene_matched [0, 1, 2] of
      (\<sigma>', constructed) \<Rightarrow>
        population_size constructed = 3 \<and> unequipped_size \<sigma>' constructed = 1 \<and>
        equipped_size \<sigma>' constructed = 2 \<and>
        equipped_size \<sigma>' constructed + unequipped_size \<sigma>' constructed = population_size constructed)"
proof -
  obtain \<sigma>' constructed where
    c: "Stats_init iter_config_order scene_matched [0, 1, 2] = (\<sigma>', constructed)"
    by (cases "Stats_init iter_config_order scene_matched [0, 1, 2]")
  have f: "filter (\<lambda>r. equipment (scene_matched r) = {}) [0, 1, 2] = [2]"
    "filter (\<lambda>r. equipment (scene_matched r) \<noteq> {}) [0, 1, 2] = [0, 1]"
    by (simp_all add: scene_matched_def new_Person_def)
  from C6_counts_partition [where \<sigma> = scene_matched and iter = iter_config_order
        and people = "[0, 1, 2]"] c
  have n: "population_size constructed = int (length [0, 1, 2 :: nat])"
    and u: "unequipped_size \<sigma>' constructed =
        int (length (filter (\<lambda>r. equipment (scene_matched r) = {}) [0, 1, 2]))"
    and e: "equipped_size \<sigma>' constructed =
        int (length (filter (\<lambda>r. equipment (scene_matched r) \<noteq> {}) [0, 1, 2]))"
    by simp_all
  have "population_size constructed = 3" using n by simp
  moreover have "unequipped_size \<sigma>' constructed = 1" using u unfolding f by simp
  moreover have "equipped_size \<sigma>' constructed = 2" using e unfolding f by simp
  ultimately show ?thesis using c by simp
qed

text \<open>
  Claim C8. The constructor receives the list the parser built: every entry a
  \<^verbatim>\<open>Person\<close> object of its own, so the addresses in the list are pairwise distinct. For
  every such list the population is the list, in its order, every person of it has as
  \<^verbatim>\<open>ind\<close> its zero-based position, and the \<^verbatim>\<open>ind\<close> values are pairwise different.
\<close>

theorem C8_index_is_position:
  assumes "distinct people"
  shows "case Stats_init iter \<sigma> people of
           (\<sigma>', self) \<Rightarrow>
             population self = people \<and>
             (\<forall>i < length (population self). ind (\<sigma>' (population self ! i)) = Some (int i)) \<and>
             distinct (map (\<lambda>person. ind (\<sigma>' person)) (population self))"
proof -
  obtain \<sigma>' self where c: "Stats_init iter \<sigma> people = (\<sigma>', self)"
    by (cases "Stats_init iter \<sigma> people")
  have p: "population self = people" by (rule Stats_init_facts(1) [OF c])
  have i: "\<forall>i < length people. ind (\<sigma>' (people ! i)) = Some (int i)"
    using Stats_init_facts(5) [OF c assms] by simp
  have "map (\<lambda>person. ind (\<sigma>' person)) people = map (\<lambda>i. Some (int i)) [0 ..< length people]"
    using i by (intro nth_equalityI) simp_all
  moreover have "distinct (map (\<lambda>i. Some (int i)) [0 ..< length people])"
    by (simp add: distinct_map inj_on_def)
  ultimately have "distinct (map (\<lambda>person. ind (\<sigma>' person)) people)" by simp
  with p i c show ?thesis by simp
qed

theorem C8_index_is_position_witness:
  "(case Stats_init iter_config_order scene_matched [2, 0, 1] of
      (\<sigma>', self) \<Rightarrow>
        population self = [2, 0, 1] \<and>
        ind (\<sigma>' 2) = Some 0 \<and> ind (\<sigma>' 0) = Some 1 \<and> ind (\<sigma>' 1) = Some 2)"
proof -
  have d: "distinct [2, 0, 1 :: nat]" by simp
  obtain \<sigma>' self where
    c: "Stats_init iter_config_order scene_matched [2, 0, 1] = (\<sigma>', self)"
    by (cases "Stats_init iter_config_order scene_matched [2, 0, 1]")
  from C8_index_is_position [OF d, of iter_config_order scene_matched]
  have "population self = [2, 0, 1] \<and>
      (\<forall>i < length (population self). ind (\<sigma>' (population self ! i)) = Some (int i)) \<and>
      distinct (map (\<lambda>person. ind (\<sigma>' person)) (population self))"
    unfolding c prod.case .
  then have p: "population self = [2, 0, 1]"
    and i: "\<forall>i < length (population self). ind (\<sigma>' (population self ! i)) = Some (int i)"
    by blast+
  have "ind (\<sigma>' (population self ! 0)) = Some (int 0)"
    "ind (\<sigma>' (population self ! 1)) = Some (int 1)"
    "ind (\<sigma>' (population self ! 2)) = Some (int 2)"
    using i [rule_format, of 0] i [rule_format, of 1] i [rule_format, of 2] p by simp_all
  then show ?thesis using p c by simp
qed

section \<open>The report text of \<^verbatim>\<open>prepare_message\<close>\<close>

lemma py_format_plain: "brace_free t \<Longrightarrow> py_format t args = Inr t"
  by (induction t args rule: py_format.induct) (auto simp: brace_free_def)

lemma py_format_char:
  "c \<noteq> CHR ''{'' \<Longrightarrow> c \<noteq> CHR ''}'' \<Longrightarrow> py_format (c # t) args = map_sum id ((#) c) (py_format t args)"
  by (cases t) auto

lemma py_format_field: "py_format (CHR ''{'' # CHR ''}'' # t) (a # args) = map_sum id ((@) a) (py_format t args)"
  by simp

lemma brace_free_append [simp]: "brace_free (s @ t) = (brace_free s \<and> brace_free t)"
  by (auto simp: brace_free_def)

lemma brace_free_join:
  "\<forall>c \<in> set names. brace_free c \<Longrightarrow> brace_free (join '', '' names)"
  by (induction "'', ''" names rule: join.induct) (auto simp: brace_free_def)

lemma format_wears:
  "brace_free t \<Longrightarrow>
   py_format (''Person {} wears: '' @ t) [a] = Inr (''Person '' @ a @ '' wears: '' @ t)"
  by (simp add: py_format_char py_format_field py_format_plain del: py_format.simps)

lemma format_unequipped:
  "py_format ''Person {} is unequipped.\<newline>'' [a] = Inr (''Person '' @ a @ '' is unequipped.\<newline>'')"
  by simp

lemma format_group:
  "py_format ''Persons with {}: {}.\<newline>'' [g, n] = Inr (''Persons with '' @ g @ '': '' @ n @ ''.\<newline>'')"
  by simp

lemma group_lines_text:
  "group_lines self groups = Inr (concat (map (group_line_text self) groups))"
  by (induction groups) (simp_all add: format_group group_line_text_def del: py_format.simps)

lemma person_line_text:
  assumes "\<forall>c \<in> set (iter (equipment (\<sigma> person))). brace_free c"
  shows "person_line iter \<sigma> (int idx) person = Inr (person_line_text iter \<sigma> (idx, person))"
proof -
  have "brace_free ''.\<newline>''" by (simp add: brace_free_def)
  then have "brace_free (join '', '' (iter (equipment (\<sigma> person))) @ ''.\<newline>'')"
    using brace_free_join [OF assms] by simp
  from format_wears [OF this, of "py_str (int idx)"] show ?thesis
    by (simp add: person_line_def person_line_text_def format_unequipped del: py_format.simps)
qed

lemma person_lines_text:
  "\<forall>person \<in> set people. \<forall>c \<in> set (iter (equipment (\<sigma> person))). brace_free c \<Longrightarrow>
   person_lines iter \<sigma> (int k) people =
     Inr (concat (map (person_line_text iter \<sigma>) (enumerate k people)))"
proof (induction people arbitrary: k)
  case Nil
  then show ?case by simp
next
  case (Cons p people)
  have "person_line iter \<sigma> (int k) p = Inr (person_line_text iter \<sigma> (k, p))"
    using Cons.prems by (intro person_line_text) simp
  moreover have "person_lines iter \<sigma> (int k + 1) people =
     Inr (concat (map (person_line_text iter \<sigma>) (enumerate (Suc k) people)))"
    using Cons.prems Cons.IH [of "Suc k"] by (simp add: add.commute)
  ultimately show ?case by simp
qed


lemma message_from_text:
  assumes "\<forall>person \<in> set (population self). \<forall>c \<in> set (iter (equipment (\<sigma> person))). brace_free c"
    and "py_format first_template [py_str (population_size self)] = Inr found"
  shows "message_from first_template cfg iter \<sigma> self =
     Inr (found
          @ ''Without equipment: '' @ py_str (unequipped_size \<sigma> self) @ ''.\<newline>''
          @ concat (map (group_line_text self) (map fst (TARGET_PPE_GROUP_KEYS cfg)))
          @ concat (map (person_line_text iter \<sigma>) (enumerate 0 (population self))))"
proof -
  have w: "py_format ''Without equipment: {}.\<newline>'' [py_str (unequipped_size \<sigma> self)] =
      Inr (''Without equipment: '' @ py_str (unequipped_size \<sigma> self) @ ''.\<newline>'')"
    by simp
  have p: "person_lines iter \<sigma> 0 (population self) =
      Inr (concat (map (person_line_text iter \<sigma>) (enumerate 0 (population self))))"
    using person_lines_text [OF assms(1), of 0] by simp
  show ?thesis
    unfolding message_from_def assms(2) w group_lines_text p by simp
qed

text \<open>
  Claim C7, amended: \<^verbatim>\<open>prepare_message\<close> joins each equipped person's group names in the
  order in which the person's equipment set is iterated, whatever that order is; it does not
  sort them. For names without braces the report is, in both variants, the text below: the
  heading lines, one line per configured group, and per person in population order either
  \<open>Person i wears: \<close> followed by the names in iteration order joined by \<open>, \<close>, or
  \<open>Person i is unequipped.\<close> The text is a function of the \<^verbatim>\<open>Stats\<close> value, the
  configuration and the iteration order.
\<close>

theorem C7_join_in_iteration_order:
  assumes "\<forall>person \<in> set (population self). \<forall>c \<in> set (iter (equipment (\<sigma> person))).
             CHR ''{'' \<notin> set c \<and> CHR ''}'' \<notin> set c"
  shows "prepare_message cfg iter \<sigma> self =
     Inr (''Report: \<newline>Found '' @ py_str (population_size self) @ '' persons.\<newline>''
          @ ''Without equipment: '' @ py_str (unequipped_size \<sigma> self) @ ''.\<newline>''
          @ concat (map (\<lambda>g. ''Persons with '' @ g @ '': ''
                               @ py_str (int (length (equipment2person self g))) @ ''.\<newline>'')
                      (map fst (TARGET_PPE_GROUP_KEYS cfg)))
          @ concat (map (\<lambda>(idx, person).
                           if equipment (\<sigma> person) \<noteq> {}
                           then ''Person '' @ py_str (int idx) @ '' wears: ''
                                  @ join '', '' (iter (equipment (\<sigma> person))) @ ''.\<newline>''
                           else ''Person '' @ py_str (int idx) @ '' is unequipped.\<newline>'')
                      (enumerate 0 (population self)))) \<and>
   prepare_message_PreTrained cfg iter \<sigma> self =
     Inr (''Found '' @ py_str (population_size self) @ '' persons.\<newline>''
          @ ''Without equipment: '' @ py_str (unequipped_size \<sigma> self) @ ''.\<newline>''
          @ concat (map (\<lambda>g. ''Persons with '' @ g @ '': ''
                               @ py_str (int (length (equipment2person self g))) @ ''.\<newline>'')
                      (map fst (TARGET_PPE_GROUP_KEYS cfg)))
          @ concat (map (\<lambda>(idx, person).
                           if equipment (\<sigma> person) \<noteq> {}
                           then ''Person '' @ py_str (int idx) @ '' wears: ''
                                  @ join '', '' (iter (equipment (\<sigma> person))) @ ''.\<newline>''
                           else ''Person '' @ py_str (int idx) @ '' is unequipped.\<newline>'')
                      (enumerate 0 (population self))))"
proof -
  have bf: "\<forall>person \<in> set (population self). \<forall>c \<in> set (iter (equipment (\<sigma> person))). brace_free c"
    using assms by (simp add: brace_free_def)
  have a: "py_format ''Report: \<newline>Found {} persons.\<newline>'' [py_str (population_size self)] =
      Inr (''Report: \<newline>Found '' @ py_str (population_size self) @ '' persons.\<newline>'')"
    by simp
  have b: "py_format ''Found {} persons.\<newline>'' [py_str (population_size self)] =
      Inr (''Found '' @ py_str (population_size self) @ '' persons.\<newline>'')"
    by simp
  have g: "group_line_text self = (\<lambda>g. ''Persons with '' @ g @ '': ''
                               @ py_str (int (length (equipment2person self g))) @ ''.\<newline>'')"
    by (simp add: fun_eq_iff group_line_text_def)
  have p: "person_line_text iter \<sigma> = (\<lambda>(idx, person).
                           if equipment (\<sigma> person) \<noteq> {}
                           then ''Person '' @ py_str (int idx) @ '' wears: ''
                                  @ join '', '' (iter (equipment (\<sigma> person))) @ ''.\<newline>''
                           else ''Person '' @ py_str (int idx) @ '' is unequipped.\<newline>'')"
    by (simp add: fun_eq_iff person_line_text_def)
  show ?thesis
    using message_from_text [OF bf a, of cfg] message_from_text [OF bf b, of cfg]
    unfolding g p prepare_message_def prepare_message_PreTrained_def by simp
qed

lemma scene_constructed:
  "Stats_init iter scene_matched [0, 1, 2] = (\<sigma>', self) \<Longrightarrow>
   population self = [0, 1, 2] \<and> equipment (\<sigma>' 0) = {''helmet'', ''boot''} \<and>
   equipment (\<sigma>' 1) = {''helmet''} \<and> equipment (\<sigma>' 2) = {}"
  using Stats_init_facts(1,2) [of iter scene_matched "[0, 1, 2]" \<sigma>' self]
  by (simp add: scene_matched_def new_Person_def)

lemma iter_alphabetical_scene:
  "iter_alphabetical {''helmet'', ''boot''} = [''boot'', ''helmet'']"
  "iter_alphabetical {''helmet''} = [''helmet'']"
  "iter_alphabetical {} = []"
  by (simp_all add: iter_alphabetical_def)

lemma iter_config_order_scene:
  "iter_config_order {''helmet'', ''boot''} = [''helmet'', ''boot'']"
  "iter_config_order {''helmet''} = [''helmet'']"
  "iter_config_order {} = []"
  by (simp_all add: iter_config_order_def)

lemma py_str_small: "py_str 0 = ''0''" "py_str 1 = ''1''" "py_str 2 = ''2''" "py_str 3 = ''3''"
  by (simp_all add: py_str_def str_nat.simps digit_char_def)

lemma scene_e2p_alphabetical:
  "Stats_init iter_alphabetical scene_matched [0, 1, 2] = (\<sigma>', self) \<Longrightarrow>
   equipment2person self ''helmet'' = [0, 1] \<and> equipment2person self ''boot'' = [0]"
  by (auto simp: Stats_init_def add_person_def Let_def scene_matched_def new_Person_def
      iter_alphabetical_def)

theorem C7_join_in_iteration_order_witness:
  "(case Stats_init iter_alphabetical scene_matched [0, 1, 2] of
      (\<sigma>', self) \<Rightarrow>
        prepare_message_PreTrained Config_PreTrained iter_alphabetical \<sigma>' self =
          Inr (''Found 3 persons.\<newline>''
               @ ''Without equipment: 1.\<newline>''
               @ ''Persons with helmet: 2.\<newline>''
               @ ''Persons with boot: 1.\<newline>''
               @ ''Person 0 wears: boot, helmet.\<newline>''
               @ ''Person 1 wears: helmet.\<newline>''
               @ ''Person 2 is unequipped.\<newline>''))"
proof -
  obtain \<sigma>' self where c: "Stats_init iter_alphabetical scene_matched [0, 1, 2] = (\<sigma>', self)"
    by (cases "Stats_init iter_alphabetical scene_matched [0, 1, 2]")
  note s = scene_constructed [OF c] and e = scene_e2p_alphabetical [OF c]
  have pre: "\<forall>person \<in> set (population self). \<forall>c \<in> set (iter_alphabetical (equipment (\<sigma>' person))).
             CHR ''{'' \<notin> set c \<and> CHR ''}'' \<notin> set c"
    using s by (simp add: iter_alphabetical_scene)
  have u: "unequipped_size \<sigma>' self = 1" and n: "population_size self = 3"
    using s by (simp_all add: unequipped_size_def population_size_def)
  have en: "enumerate 0 [0, 1, 2 :: nat] = [(0, 0), (1, 1), (2, 2)]" by (simp add: enumerate_eq_zip)
  show ?thesis
    unfolding c prod.case
    using conjunct2 [OF C7_join_in_iteration_order [OF pre, of Config_PreTrained]] s e
    by (simp add: u n en Config_PreTrained_def iter_alphabetical_scene py_str_small)
qed


lemma scene_e2p_config_order:
  "Stats_init iter_config_order scene_matched [0, 1, 2] = (\<sigma>', self) \<Longrightarrow>
   equipment2person self ''helmet'' = [0, 1] \<and> equipment2person self ''boot'' = [0] \<and>
   equipment2person self ''mask'' = []"
  by (auto simp: Stats_init_def add_person_def Let_def scene_matched_def new_Person_def
      iter_config_order_def)

text \<open>
  Claim C7 as stated (the names of a \<open>wears\<close> line are sorted alphabetically) fails: when the
  set \<open>{helmet, boot}\<close> is iterated with \<open>helmet\<close> first, the line of person 0 reads
  \<open>helmet, boot\<close>, which is not in alphabetical order.
\<close>

theorem C7_unsorted_join:
  "(case Stats_init iter_config_order scene_matched [0, 1, 2] of
      (\<sigma>', self) \<Rightarrow>
        prepare_message Config_CustomLabels_active iter_config_order \<sigma>' self =
          Inr (''Report: \<newline>Found 3 persons.\<newline>''
               @ ''Without equipment: 1.\<newline>''
               @ ''Persons with helmet: 2.\<newline>''
               @ ''Persons with mask: 0.\<newline>''
               @ ''Persons with boot: 1.\<newline>''
               @ ''Person 0 wears: helmet, boot.\<newline>''
               @ ''Person 1 wears: helmet.\<newline>''
               @ ''Person 2 is unequipped.\<newline>'')) \<and>
   \<not> sorted [''helmet'', ''boot'']"
proof -
  obtain \<sigma>' self where c: "Stats_init iter_config_order scene_matched [0, 1, 2] = (\<sigma>', self)"
    by (cases "Stats_init iter_config_order scene_matched [0, 1, 2]")
  note s = scene_constructed [OF c] and e = scene_e2p_config_order [OF c]
  have bf: "\<forall>person \<in> set (population self).
      \<forall>c \<in> set (iter_config_order (equipment (\<sigma>' person))). brace_free c"
    using s by (simp add: iter_config_order_scene brace_free_def)
  have a: "py_format ''Report: \<newline>Found {} persons.\<newline>'' [py_str (population_size self)] =
      Inr (''Report: \<newline>Found '' @ py_str (population_size self) @ '' persons.\<newline>'')"
    by simp
  have u: "unequipped_size \<sigma>' self = 1" and n: "population_size self = 3"
    using s by (simp_all add: unequipped_size_def population_size_def)
  have en: "enumerate 0 [0, 1, 2 :: nat] = [(0, 0), (1, 1), (2, 2)]" by (simp add: enumerate_eq_zip)
  have "prepare_message Config_CustomLabels_active iter_config_order \<sigma>' self =
          Inr (''Report: \<newline>Found 3 persons.\<newline>''
               @ ''Without equipment: 1.\<newline>''
               @ ''Persons with helmet: 2.\<newline>''
               @ ''Persons with mask: 0.\<newline>''
               @ ''Persons with boot: 1.\<newline>''
               @ ''Person 0 wears: helmet, boot.\<newline>''
               @ ''Person 1 wears: helmet.\<newline>''
               @ ''Person 2 is unequipped.\<newline>'')"
    using message_from_text [OF bf a, of Config_CustomLabels_active] s e
    by (simp add: prepare_message_def u n en Config_CustomLabels_active_def active_groups_def
        Config_CustomLabels_def iter_config_order_scene py_str_small group_line_text_def
        person_line_text_def)
  moreover have "\<not> sorted [''helmet'', ''boot'']" by simp
  ultimately show ?thesis unfolding c prod.case by simp
qed

section \<open>The detection parser\<close>

lemma general_person_entries_map:
  "general_person_entries entries acc =
     acc @ map (\<lambda>e. new_Person\<lparr> box := map_option make_bounding_box (BoundingBox e) \<rparr>)
             (filter (\<lambda>e. BoundingBox e \<noteq> None) entries)"
  by (induction entries arbitrary: acc) (auto split: option.splits)

lemma pretrained_person_entries_map:
  "pretrained_person_entries entries acc =
     acc @ map (\<lambda>e. new_Person_PreTrained\<lparr> box := map_option make_bounding_box (BoundingBox e),
                                            confidence := Confidence e \<rparr>)
             (filter (\<lambda>e. BoundingBox e \<noteq> None \<and> Confidence e \<noteq> None) entries)"
  by (induction entries arbitrary: acc) (auto split: option.splits)

lemma general_labels_population:
  "fst (general_labels cfg labels (acc, eb)) =
     acc @ concat (map (\<lambda>l. case Instances l of
                               None \<Rightarrow> []
                             | Some entries \<Rightarrow>
                                 if lower (Name l) \<in> set (PERSON_KEYS cfg)
                                 then map (\<lambda>e. new_Person\<lparr> box := map_option make_bounding_box (BoundingBox e) \<rparr>)
                                        (filter (\<lambda>e. BoundingBox e \<noteq> None) entries)
                                 else []) labels)"
  by (induction labels arbitrary: acc eb)
    (auto simp: general_person_entries_map split: option.splits)

lemma pretrained_labels_population:
  "fst (pretrained_labels cfg labels (acc, eb)) =
     acc @ concat (map (\<lambda>l. case Instances l of
                               None \<Rightarrow> []
                             | Some entries \<Rightarrow>
                                 if Name l \<in> set (PERSON_KEYS cfg)
                                 then map (\<lambda>e. new_Person_PreTrained\<lparr>
                                                 box := map_option make_bounding_box (BoundingBox e),
                                                 confidence := Confidence e \<rparr>)
                                        (filter (\<lambda>e. BoundingBox e \<noteq> None \<and> Confidence e \<noteq> None) entries)
                                 else []) labels)"
  by (induction labels arbitrary: acc eb)
    (auto simp: pretrained_person_entries_map split: option.splits)

text \<open>
  Claim C3, amended. \<^verbatim>\<open>parse_objects\<close> (\<^verbatim>\<open>Lambda_PreTrained.py\<close>) creates, for every label
  that has instances and whose name is a person key, one \<^verbatim>\<open>Person\<close> per instance carrying
  both a bounding box and a confidence, in order, and skips the other instances.
  \<^verbatim>\<open>parse_general_objects\<close> (\<^verbatim>\<open>Lambda_PreTrained_and_CustomLabels.py\<close>) creates, for every
  label that has instances and whose lower-cased name is a person key, one \<^verbatim>\<open>Person\<close> per
  instance carrying a bounding box, whether it carries a confidence or not, and skips the
  instances without a box. Neither function raises: both are total on the provider's records.
\<close>

theorem C3_one_person_per_instance:
  "fst (parse_objects cfg response_labels) =
     concat (map (\<lambda>l. case Instances l of
                         None \<Rightarrow> []
                       | Some entries \<Rightarrow>
                           if Name l \<in> set (PERSON_KEYS cfg)
                           then map (\<lambda>e. new_Person_PreTrained\<lparr>
                                           box := map_option make_bounding_box (BoundingBox e),
                                           confidence := Confidence e \<rparr>)
                                  (filter (\<lambda>e. BoundingBox e \<noteq> None \<and> Confidence e \<noteq> None) entries)
                           else []) response_labels) \<and>
   fst (parse_general_objects cfg response_labels) =
     concat (map (\<lambda>l. case Instances l of
                         None \<Rightarrow> []
                       | Some entries \<Rightarrow>
                           if lower (Name l) \<in> set (PERSON_KEYS cfg)
                           then map (\<lambda>e. new_Person\<lparr> box := map_option make_bounding_box (BoundingBox e) \<rparr>)
                                  (filter (\<lambda>e. BoundingBox e \<noteq> None) entries)
                           else []) response_labels)"
  using general_labels_population [of cfg response_labels "[]" "[]"]
    pretrained_labels_population [of cfg response_labels "[]" "[]"]
  by (simp add: parse_objects_def parse_general_objects_def)

lemma general_groups_lower:
  "lower (Name l') = lower (Name l) \<Longrightarrow>
   general_groups l' entries groups eb = general_groups l entries groups eb"
  by (induction l entries groups eb rule: general_groups.induct) auto

lemma general_labels_lower:
  "list_all2 (\<lambda>l' l. Instances l' = Instances l \<and> lower (Name l') = lower (Name l)) labels' labels \<Longrightarrow>
   general_labels cfg labels' acc = general_labels cfg labels acc"
proof (induction labels' labels arbitrary: acc rule: list_all2_induct)
  case Nil
  then show ?case by simp
next
  case (Cons l' ls' l ls)
  obtain pop eb where acc: "acc = (pop, eb)" by (cases acc)
  show ?case
    using Cons general_groups_lower [of l' l]
    by (simp add: acc split: option.splits)
qed

text \<open>
  Claim C5, amended: in \<^verbatim>\<open>parse_general_objects\<close> the label name is lower-cased before it
  is compared with the person keys and with each group's names, so two responses whose
  labels differ only in the letter case of their names (same instances, names equal after
  lower-casing) give the same persons and the same boxes under the same groups.
\<close>

theorem C5_case_insensitive_general:
  assumes "list_all2 (\<lambda>l' l. Instances l' = Instances l \<and> lower (Name l') = lower (Name l))
             response_labels' response_labels"
  shows "parse_general_objects cfg response_labels' = parse_general_objects cfg response_labels"
  using general_labels_lower [OF assms] by (simp add: parse_general_objects_def)


lemma lower_examples:
  "lower ''Person'' = ''person''" "lower ''PERSON'' = ''person''" "lower ''person'' = ''person''"
  "lower ''HardHat'' = ''hardhat''" "lower ''hardhat'' = ''hardhat''"
  "lower ''Helmet'' = ''helmet''" "lower ''helmet'' = ''helmet''"
  by (simp_all add: lower_def lower_char_def)

theorem C3_one_person_per_instance_witness:
  "fst (parse_objects Config_PreTrained
          [\<lparr> Name = ''Person'', Instances = Some [entry_full, entry_no_confidence, entry_no_box] \<rparr>,
           \<lparr> Name = ''Person'', Instances = None \<rparr>]) =
     [new_Person_PreTrained\<lparr> box := Some (make_bounding_box example_box), confidence := Some 99 \<rparr>] \<and>
   fst (parse_general_objects Config_CustomLabels
          [\<lparr> Name = ''Person'', Instances = Some [entry_full, entry_no_box] \<rparr>,
           \<lparr> Name = ''Person'', Instances = None \<rparr>]) =
     [new_Person\<lparr> box := Some (make_bounding_box example_box) \<rparr>]"
  using C3_one_person_per_instance [of Config_PreTrained
      "[\<lparr> Name = ''Person'', Instances = Some [entry_full, entry_no_confidence, entry_no_box] \<rparr>,
        \<lparr> Name = ''Person'', Instances = None \<rparr>]"]
    C3_one_person_per_instance [of Config_CustomLabels
      "[\<lparr> Name = ''Person'', Instances = Some [entry_full, entry_no_box] \<rparr>,
        \<lparr> Name = ''Person'', Instances = None \<rparr>]"]
  by (simp add: Config_PreTrained_def Config_CustomLabels_def lower_examples
      entry_full_def entry_no_confidence_def entry_no_box_def)

text \<open>
  Claim C3 as stated fails for \<^verbatim>\<open>parse_general_objects\<close>: an instance with a bounding box
  and no confidence is not skipped, it becomes a \<^verbatim>\<open>Person\<close>.
\<close>

theorem C3_no_confidence_still_person:
  "fst (parse_general_objects Config_CustomLabels
          [\<lparr> Name = ''Person'', Instances = Some [entry_no_confidence] \<rparr>]) =
     [new_Person\<lparr> box := Some (make_bounding_box example_box) \<rparr>] \<and>
   Confidence entry_no_confidence = None"
  by (simp add: parse_general_objects_def Config_CustomLabels_def lower_examples
      entry_no_confidence_def)

theorem C5_case_insensitive_general_witness:
  "parse_general_objects Config_CustomLabels
     [\<lparr> Name = ''PERSON'', Instances = Some [entry_full] \<rparr>,
      \<lparr> Name = ''HardHat'', Instances = Some [entry_full] \<rparr>] =
   parse_general_objects Config_CustomLabels
     [\<lparr> Name = ''person'', Instances = Some [entry_full] \<rparr>,
      \<lparr> Name = ''hardhat'', Instances = Some [entry_full] \<rparr>] \<and>
   parse_general_objects Config_CustomLabels
     [\<lparr> Name = ''person'', Instances = Some [entry_full] \<rparr>,
      \<lparr> Name = ''hardhat'', Instances = Some [entry_full] \<rparr>] =
   ([new_Person\<lparr> box := Some (make_bounding_box example_box) \<rparr>],
    [(''helmet'', [make_bounding_box example_box])])"
proof -
  have "list_all2 (\<lambda>l' l. Instances l' = Instances l \<and> lower (Name l') = lower (Name l))
     [\<lparr> Name = ''PERSON'', Instances = Some [entry_full] \<rparr>,
      \<lparr> Name = ''HardHat'', Instances = Some [entry_full] \<rparr>]
     [\<lparr> Name = ''person'', Instances = Some [entry_full] \<rparr>,
      \<lparr> Name = ''hardhat'', Instances = Some [entry_full] \<rparr>]"
    by (simp add: lower_examples)
  from C5_case_insensitive_general [OF this, of Config_CustomLabels]
  show ?thesis
    by (simp add: parse_general_objects_def Config_CustomLabels_def lower_examples entry_full_def)
qed

text \<open>
  Claim C5 as stated fails for \<^verbatim>\<open>parse_objects\<close> (\<^verbatim>\<open>Lambda_PreTrained.py\<close>), which compares
  the name as it is: \<open>Person\<close> and \<open>Helmet\<close> give a person and a helmet box, \<open>person\<close> and
  \<open>helmet\<close> give nothing.
\<close>

theorem C5_pretrained_case_sensitive:
  "parse_objects Config_PreTrained
     [\<lparr> Name = ''Person'', Instances = Some [entry_full] \<rparr>,
      \<lparr> Name = ''Helmet'', Instances = Some [entry_full] \<rparr>] =
   ([new_Person_PreTrained\<lparr> box := Some (make_bounding_box example_box), confidence := Some 99 \<rparr>],
    [(''helmet'', [make_bounding_box example_box])]) \<and>
   parse_objects Config_PreTrained
     [\<lparr> Name = ''person'', Instances = Some [entry_full] \<rparr>,
      \<lparr> Name = ''helmet'', Instances = Some [entry_full] \<rparr>] = ([], []) \<and>
   lower ''Person'' = lower ''person'' \<and> lower ''Helmet'' = lower ''helmet''"
  by (simp add: parse_objects_def Config_PreTrained_def lower_examples entry_full_def)


end
